theory Spec2Isabelle
  imports Main "HOL-Library.Sublist"
begin

section \<open>JavaScript string primitives used by the sources\<close>

text \<open>
  Strings are lists of \<^typ>\<open>char\<close>. The model covers ASCII text: \<open>toLowerCase\<close> maps
  \<open>A\<close>-\<open>Z\<close> to \<open>a\<close>-\<open>z\<close> and leaves every other character alone, and the white space of
  \<open>\s\<close> and of \<open>trim()\<close> is tab, line feed, vertical tab, form feed, carriage return and
  space.
\<close>

definition toLowerChar :: "char \<Rightarrow> char" where
  "toLowerChar c =
     (case map_of (zip ''ABCDEFGHIJKLMNOPQRSTUVWXYZ'' ''abcdefghijklmnopqrstuvwxyz'') c of
        Some l \<Rightarrow> l
      | None \<Rightarrow> c)"

definition toLowerCase :: "string \<Rightarrow> string" where
  "toLowerCase s = map toLowerChar s"

definition is_ws :: "char \<Rightarrow> bool" where
  "is_ws c = (c = CHR 0x09 \<or> c = CHR 0x0A \<or> c = CHR 0x0B \<or> c = CHR 0x0C \<or> c = CHR 0x0D
              \<or> c = CHR '' '')"

definition trim :: "string \<Rightarrow> string" where
  "trim s = rev (dropWhile is_ws (rev (dropWhile is_ws s)))"

definition startsWith :: "string \<Rightarrow> string \<Rightarrow> bool" where
  "startsWith s p = prefix p s"

definition endsWith :: "string \<Rightarrow> string \<Rightarrow> bool" where
  "endsWith s p = suffix p s"

definition includesStr :: "string \<Rightarrow> string \<Rightarrow> bool" where
  "includesStr s w = sublist w s"

text \<open>
  \<open>s.split(/\s+/)\<close>: the pieces between maximal runs of white space. A run at the very start
  or end leaves an empty piece there, and the empty string splits into one empty piece.
  \<open>cur\<close> is the piece being read; \<open>inws\<close> says that the previous character was white space.
\<close>

fun split_ws_from :: "bool \<Rightarrow> string \<Rightarrow> string \<Rightarrow> string list" where
  "split_ws_from inws cur [] = [cur]"
| "split_ws_from inws cur (c # cs) =
     (if is_ws c then (if inws then split_ws_from True cur cs
                       else cur # split_ws_from True [] cs)
      else split_ws_from False (cur @ [c]) cs)"

definition split_ws :: "string \<Rightarrow> string list" where
  "split_ws s = split_ws_from False [] s"

text \<open>\<open>s.split(sep)\<close> for a one-character separator.\<close>

fun split_from :: "char \<Rightarrow> string \<Rightarrow> string \<Rightarrow> string list" where
  "split_from sep cur [] = [cur]"
| "split_from sep cur (c # cs) =
     (if c = sep then cur # split_from sep [] cs else split_from sep (cur @ [c]) cs)"

definition split_on :: "char \<Rightarrow> string \<Rightarrow> string list" where
  "split_on sep s = split_from sep [] s"

text \<open>\<open>xs.filter(Boolean)\<close> on strings drops the empty ones.\<close>

definition filter_Boolean :: "string list \<Rightarrow> string list" where
  "filter_Boolean xs = filter (\<lambda>w. w \<noteq> []) xs"

section \<open>The TTL cache (utils/cache.ts)\<close>

text \<open>
  Times are milliseconds as \<^typ>\<open>int\<close>. \<open>Date.now()\<close> is an argument of each operation.
  An absent \<open>ttl\<close> argument is \<open>None\<close>.
\<close>

record 'a CacheEntry =
  data :: 'a
  timestamp :: int
  expiresAt :: int

record 'a Cache =
  store :: "string \<rightharpoonup> 'a CacheEntry"
  defaultTTL :: int

definition Cache_new :: "int \<Rightarrow> 'a Cache" where
  "Cache_new ttl = \<lparr>store = Map.empty, defaultTTL = ttl\<rparr>"

definition Cache_set :: "int \<Rightarrow> string \<Rightarrow> 'a \<Rightarrow> int option \<Rightarrow> 'a Cache \<Rightarrow> 'a Cache" where
  "Cache_set now key dat ttl c =
     (let expires = now + (case ttl of Some t \<Rightarrow> t | None \<Rightarrow> defaultTTL c)
      in c\<lparr>store := (store c)(key \<mapsto> \<lparr>data = dat, timestamp = now, expiresAt = expires\<rparr>)\<rparr>)"

definition Cache_get :: "int \<Rightarrow> string \<Rightarrow> 'a Cache \<Rightarrow> 'a option \<times> 'a Cache" where
  "Cache_get now key c =
     (case store c key of
        None \<Rightarrow> (None, c)
      | Some entry \<Rightarrow>
          if now > expiresAt entry then (None, c\<lparr>store := (store c)(key := None)\<rparr>)
          else (Some (data entry), c))"

definition Cache_clear :: "'a Cache \<Rightarrow> 'a Cache" where
  "Cache_clear c = c\<lparr>store := Map.empty\<rparr>"

section \<open>The document model (types/index.ts)\<close>

datatype SourceType = SrcLocal | SrcRemote | SrcGit

text \<open>
  What \<open>matter(content).data\<close> holds, \<open>Record<string, unknown>\<close> in the source, is modelled
  by the keys \<open>parseMarkdown\<close> reads, each with the type \<open>StandardDocument\<close> declares for the
  field it feeds; an absent key is \<open>None\<close>. \<open>tags\<close> is read as \<open>unknown\<close> and inspected at run
  time, so it keeps its three shapes.
\<close>

datatype TagsValue = TagsArray "string list" | TagsString string | TagsOther

record FrontMatter =
  fm_id :: "string option"
  fm_title :: "string option"
  fm_description :: "string option"
  fm_category :: "string option"
  fm_subcategory :: "string option"
  fm_tags :: "TagsValue option"
  fm_version :: "string option"
  fm_lastUpdated :: "string option"
  fm_last_updated :: "string option"

definition empty_frontmatter :: FrontMatter where
  "empty_frontmatter =
     \<lparr>fm_id = None, fm_title = None, fm_description = None, fm_category = None,
      fm_subcategory = None, fm_tags = None, fm_version = None, fm_lastUpdated = None,
      fm_last_updated = None\<rparr>"

text \<open>The field \<open>id\<close> is named \<open>doc_id\<close> here.\<close>

record StandardMetadata =
  doc_id :: string
  title :: string
  description :: "string option"
  category :: string
  subcategory :: "string option"
  tags :: "string list"
  version :: "string option"
  lastUpdated :: "string option"
  source :: SourceType
  path :: string

record StandardDocument = StandardMetadata +
  content :: string
  frontmatter :: FrontMatter

text \<open>The fields \<open>id\<close>, \<open>title\<close>, \<open>description\<close> and \<open>category\<close> carry the prefix \<open>sr_\<close>.\<close>

record SearchResult =
  sr_id :: string
  sr_title :: string
  sr_description :: "string option"
  sr_category :: string
  relevance :: int

section \<open>The Markdown parser (utils/parser.ts)\<close>

text \<open>
  A thrown exception is a value \<open>Inl e\<close>. \<open>matter\<close> is the gray-matter package, a dependency
  outside the repository: it is an argument of the model, a function from the raw text to
  either an exception or the front matter and the remaining body.
\<close>

datatype js_error = Thrown string

type_synonym matter_fn = "string \<Rightarrow> js_error + (FrontMatter \<times> string)"

text \<open>\<open>a || b\<close> on optional strings: the empty string and \<open>undefined\<close> are falsy.\<close>

definition or_opt :: "string option \<Rightarrow> string option \<Rightarrow> string option" where
  "or_opt a b = (case a of Some s \<Rightarrow> if s \<noteq> [] then Some s else b | None \<Rightarrow> b)"

definition or_str :: "string option \<Rightarrow> string \<Rightarrow> string" where
  "or_str a b = (case a of Some s \<Rightarrow> if s \<noteq> [] then s else b | None \<Rightarrow> b)"

text \<open>\<open>.replace(/\\/g, '/')\<close>, \<open>.replace(/^\.?\//, '')\<close>, \<open>.replace(/^standards\//, '')\<close>,
  \<open>.replace(/\.md$/i, '')\<close> and \<open>.replace(/\//g, '-')\<close>.\<close>

definition backslashes_to_slashes :: "string \<Rightarrow> string" where
  "backslashes_to_slashes s = map (\<lambda>c. if c = CHR 0x5C then CHR ''/'' else c) s"

definition strip_leading_dot_slash :: "string \<Rightarrow> string" where
  "strip_leading_dot_slash s =
     (if startsWith s ''./'' then drop 2 s else if startsWith s ''/'' then drop 1 s else s)"

definition strip_standards_prefix :: "string \<Rightarrow> string" where
  "strip_standards_prefix s = (if startsWith s ''standards/'' then drop 10 s else s)"

definition strip_md_suffix :: "string \<Rightarrow> string" where
  "strip_md_suffix s = (if endsWith (toLowerCase s) ''.md'' then take (length s - 3) s else s)"

definition slashes_to_hyphens :: "string \<Rightarrow> string" where
  "slashes_to_hyphens s = map (\<lambda>c. if c = CHR ''/'' then CHR ''-'' else c) s"

record PathInfo =
  pi_category :: string
  pi_subcategory :: "string option"
  pi_filename :: string

definition extractPathInfo :: "string \<Rightarrow> PathInfo" where
  "extractPathInfo filePath =
     (let normalizedPath = backslashes_to_slashes filePath;
          cleanPath = strip_leading_dot_slash normalizedPath;
          parts0 = split_on (CHR ''/'') cleanPath;
          parts = (if hd parts0 = ''standards'' then tl parts0 else parts0);
          filename = or_str (if parts = [] then None else Some (strip_md_suffix (last parts)))
                       ''unknown'';
          cat = or_str (if parts = [] then None else Some (hd parts)) ''custom'';
          subcat = (if length parts > 2 then Some (parts ! 1) else None)
      in \<lparr>pi_category = cat, pi_subcategory = subcat, pi_filename = filename\<rparr>)"

definition generateId :: "string \<Rightarrow> string" where
  "generateId filePath =
     (let normalizedPath = backslashes_to_slashes filePath;
          cleanPath = strip_md_suffix (strip_standards_prefix
                        (strip_leading_dot_slash normalizedPath))
      in toLowerCase (slashes_to_hyphens cleanPath))"

text \<open>
  \<open>content.match(/^#\s+(.+)$/m)\<close>. \<open>^\<close> and \<open>$\<close> are line anchors and \<open>.\<close> stops at a line
  terminator (line feed, carriage return); \<open>\s+\<close> may run over line ends. After the \<open>#\<close> the
  white-space run is taken whole when a character follows it; when the text ends with the
  run, \<open>\s+\<close> gives characters back until \<open>(.+)\<close> can start on one that is no line terminator.
\<close>

definition is_lt :: "char \<Rightarrow> bool" where
  "is_lt c = (c = CHR 0x0A \<or> c = CHR 0x0D)"

definition heading_capture :: "string \<Rightarrow> string option" where
  "heading_capture s =
     (let ws = takeWhile is_ws s; rest = dropWhile is_ws s
      in if ws = [] then None
         else if rest \<noteq> [] then Some (takeWhile (\<lambda>c. \<not> is_lt c) rest)
         else (case filter (\<lambda>j. \<not> is_lt (ws ! j)) (rev [1..<length ws]) of
                 [] \<Rightarrow> None
               | j # _ \<Rightarrow> Some (takeWhile (\<lambda>c. \<not> is_lt c) (drop j ws))))"

fun match_heading :: "bool \<Rightarrow> string \<Rightarrow> string option" where
  "match_heading bol [] = None"
| "match_heading bol (c # cs) =
     (if bol \<and> c = CHR ''#'' then
        (case heading_capture cs of
           Some t \<Rightarrow> Some t
         | None \<Rightarrow> match_heading (is_lt c) cs)
      else match_heading (is_lt c) cs)"

definition extractTitle :: "string \<Rightarrow> string option" where
  "extractTitle body = map_option trim (match_heading True body)"

fun extractDescription_loop :: "string \<Rightarrow> bool \<Rightarrow> string list \<Rightarrow> string option" where
  "extractDescription_loop body foundTitle [] = None"
| "extractDescription_loop body foundTitle (line # lines) =
     (let trimmedLine = trim line
      in if trimmedLine = [] then extractDescription_loop body foundTitle lines
         else if startsWith trimmedLine ''#'' then extractDescription_loop body True lines
         else if startsWith trimmedLine [CHR 0x60, CHR 0x60, CHR 0x60] then
           extractDescription_loop body foundTitle lines
         else if startsWith trimmedLine ''-'' \<or> startsWith trimmedLine ''*'' then
           extractDescription_loop body foundTitle lines
         else if foundTitle \<or> \<not> startsWith (trim body) ''#'' then
           (if length trimmedLine > 200 then Some (take 200 trimmedLine @ ''...'')
            else Some trimmedLine)
         else extractDescription_loop body foundTitle lines)"

definition extractDescription :: "string \<Rightarrow> string option" where
  "extractDescription body =
     extractDescription_loop body False (split_on (CHR 0x0A) body)"

definition normalizeTags :: "TagsValue option \<Rightarrow> string list" where
  "normalizeTags t =
     (case t of
        None \<Rightarrow> []
      | Some (TagsArray ts) \<Rightarrow> filter_Boolean (map trim ts)
      | Some (TagsString s) \<Rightarrow>
          (if s = [] then [] else filter_Boolean (map trim (split_on (CHR '','') s)))
      | Some TagsOther \<Rightarrow> [])"

definition isValidMarkdown :: "string \<Rightarrow> bool" where
  "isValidMarkdown body = (body \<noteq> [] \<and> length (trim body) \<noteq> 0)"

definition parseMarkdown ::
  "matter_fn \<Rightarrow> string \<Rightarrow> string \<Rightarrow> SourceType \<Rightarrow> js_error + StandardDocument" where
  "parseMarkdown matter raw filePath src =
     (case matter raw of
        Inl e \<Rightarrow> Inl e
      | Inr (fm, markdownContent) \<Rightarrow>
          (let pathInfo = extractPathInfo filePath;
               ident = or_str (fm_id fm) (generateId filePath);
               ttl = or_str (or_opt (fm_title fm) (extractTitle markdownContent))
                       (pi_filename pathInfo);
               tgs = normalizeTags (fm_tags fm)
           in Inr \<lparr>doc_id = ident,
                   title = ttl,
                   description = or_opt (fm_description fm) (extractDescription markdownContent),
                   category = or_str (fm_category fm) (pi_category pathInfo),
                   subcategory = or_opt (fm_subcategory fm) (pi_subcategory pathInfo),
                   tags = tgs,
                   version = fm_version fm,
                   lastUpdated = or_opt (fm_lastUpdated fm) (fm_last_updated fm),
                   source = src,
                   path = filePath,
                   content = trim markdownContent,
                   frontmatter = fm\<rparr>))"

section \<open>The manager (utils/manager.ts)\<close>

text \<open>
  The manager reads two fields of its configuration: the sources and the cache timeout in
  seconds. A source object keeps the arguments its constructor was given.
\<close>

record RemoteDocConfig =
  rd_url :: string
  rd_category :: "string option"
  rd_subcategory :: "string option"

type_synonym headers = "string \<rightharpoonup> string"

datatype SourceConfig =
    LocalConfig string
  | RemoteConfig string "headers option" "RemoteDocConfig list option"
  | GitConfig string string "string option" "string option"

datatype DocumentSource =
    LocalSource string
  | RemoteSource string "headers option" "RemoteDocConfig list option"
  | GitSource string string "string option" "string option"

record StandardsConfig =
  cfg_sources :: "SourceConfig list"
  cacheTimeout :: int

text \<open>
  What \<open>await source.load()\<close> yields is an argument of the model: for each source either the
  documents it resolves to or the rejection it throws. \<open>load_calls\<close> is not a field of the
  class: it records, in order, the sources whose \<open>load()\<close> the manager has invoked.
\<close>

type_synonym loader = "DocumentSource \<Rightarrow> js_error + StandardDocument list"

record StandardsManager =
  config :: StandardsConfig
  cache :: "StandardDocument list Cache"
  documents :: "StandardDocument list"
  sources :: "DocumentSource list"
  initialized :: bool
  load_calls :: "DocumentSource list"

definition StandardsManager_new :: "StandardsConfig \<Rightarrow> StandardsManager" where
  "StandardsManager_new cfg =
     \<lparr>config = cfg, cache = Cache_new (cacheTimeout cfg * 1000), documents = [],
      sources = [], initialized = False, load_calls = []\<rparr>"

fun make_source :: "SourceConfig \<Rightarrow> DocumentSource" where
  "make_source (LocalConfig p) = LocalSource p"
| "make_source (RemoteConfig u h d) = RemoteSource u h d"
| "make_source (GitConfig r b p t) = GitSource r b p t"

text \<open>
  \<open>loadDocuments\<close>: \<open>t_get\<close> is the clock when the cache is read, \<open>t_set\<close> the clock when the
  loaded corpus is stored. \<open>if (cachedDocs)\<close> is true of every array, the empty one too. The
  loop state is the pair of \<open>allDocs\<close> and the calls made.
\<close>

definition load_step ::
  "loader \<Rightarrow> DocumentSource \<Rightarrow> StandardDocument list \<times> DocumentSource list
     \<Rightarrow> StandardDocument list \<times> DocumentSource list" where
  "load_step ld src st =
     (case ld src of
        Inr docs \<Rightarrow> (fst st @ docs, snd st @ [src])
      | Inl err \<Rightarrow> (fst st, snd st @ [src]))"

definition loadDocuments :: "loader \<Rightarrow> int \<Rightarrow> int \<Rightarrow> StandardsManager \<Rightarrow> StandardsManager" where
  "loadDocuments ld t_get t_set m =
     (case Cache_get t_get ''all-documents'' (cache m) of
        (Some cachedDocs, c) \<Rightarrow> m\<lparr>cache := c, documents := cachedDocs\<rparr>
      | (None, c) \<Rightarrow>
          (let st = fold (load_step ld) (sources m) ([], load_calls m);
               allDocs = fst st
           in m\<lparr>cache := Cache_set t_set ''all-documents'' allDocs None c,
                documents := allDocs, load_calls := snd st\<rparr>))"

definition initialize :: "loader \<Rightarrow> int \<Rightarrow> int \<Rightarrow> StandardsManager \<Rightarrow> StandardsManager" where
  "initialize ld t_get t_set m =
     (if initialized m then m
      else (let m1 = m\<lparr>sources := fold (\<lambda>sourceConfig srcs. srcs @ [make_source sourceConfig])
                                    (cfg_sources (config m)) (sources m)\<rparr>;
                m2 = loadDocuments ld t_get t_set m1
            in m2\<lparr>initialized := True\<rparr>))"

definition refresh :: "loader \<Rightarrow> int \<Rightarrow> int \<Rightarrow> StandardsManager \<Rightarrow> StandardsManager" where
  "refresh ld t_get t_set m = loadDocuments ld t_get t_set (m\<lparr>cache := Cache_clear (cache m)\<rparr>)"

definition getStandardById :: "StandardsManager \<Rightarrow> string \<Rightarrow> StandardDocument option" where
  "getStandardById m i = find (\<lambda>doc. doc_id doc = i) (documents m)"

text \<open>\<open>getCategories\<close>: a \<open>Set\<close> keeps its members in the order of their first insertion.\<close>

definition getCategories :: "StandardsManager \<Rightarrow> string list" where
  "getCategories m =
     fold (\<lambda>doc cats. if category doc \<in> set cats then cats else cats @ [category doc])
       (documents m) []"

text \<open>
  \<open>searchStandards\<close>. Each \<open>for\<close> loop over the query words is a fold on the running
  relevance. \<open>Array.prototype.sort\<close> is stable; with the comparator
  \<open>b.relevance - a.relevance\<close> it is the stable sort by descending relevance.
\<close>

definition count_matches :: "int \<Rightarrow> string \<Rightarrow> string list \<Rightarrow> int \<Rightarrow> int" where
  "count_matches weight fieldLower queryWords rel =
     fold (\<lambda>word r. if includesStr fieldLower word then r + weight else r) queryWords rel"

definition doc_relevance :: "string list \<Rightarrow> StandardDocument \<Rightarrow> int" where
  "doc_relevance queryWords doc =
     (let r0 = 0;
          titleLower = toLowerCase (title doc);
          r1 = count_matches 10 titleLower queryWords r0;
          r2 = (case description doc of
                  None \<Rightarrow> r1
                | Some d \<Rightarrow> if d = [] then r1
                            else count_matches 5 (toLowerCase d) queryWords r1);
          r3 = fold (\<lambda>tag r. count_matches 7 (toLowerCase tag) queryWords r) (tags doc) r2;
          categoryLower = toLowerCase (category doc);
          r4 = count_matches 3 categoryLower queryWords r3;
          contentLower = toLowerCase (content doc);
          r5 = count_matches 1 contentLower queryWords r4
      in r5)"

definition search_step :: "string list \<Rightarrow> StandardDocument \<Rightarrow> SearchResult list \<Rightarrow> SearchResult list" where
  "search_step queryWords doc results =
     (let rel = doc_relevance queryWords doc
      in if rel > 0 then
           results @ [\<lparr>sr_id = doc_id doc, sr_title = title doc,
                        sr_description = description doc, sr_category = category doc,
                        relevance = rel\<rparr>]
         else results)"

definition searchStandards :: "StandardsManager \<Rightarrow> string \<Rightarrow> SearchResult list" where
  "searchStandards m query =
     (let queryLower = toLowerCase query;
          queryWords = filter_Boolean (split_ws queryLower);
          results = fold (search_step queryWords) (documents m) []
      in sort_key (\<lambda>r. - relevance r) results)"

section \<open>The search tool (tools/resolve-standard.ts)\<close>

text \<open>The three message templates are the constructors of \<open>ResolveMessage\<close>.\<close>

datatype ResolveMessage =
    AskForKeyword
  | NothingFound string "string list"
  | Found nat

record ResolveResult =
  message :: ResolveMessage
  results :: "SearchResult list"
  totalCount :: nat

definition resolveStandard :: "StandardsManager \<Rightarrow> string \<Rightarrow> ResolveResult" where
  "resolveStandard manager query =
     (if query = [] \<or> length (trim query) = 0 then
        \<lparr>message = AskForKeyword, results = [], totalCount = 0\<rparr>
      else
        (let found = searchStandards manager (trim query)
         in if length found = 0 then
              \<lparr>message = NothingFound query (getCategories manager), results = [],
               totalCount = 0\<rparr>
            else
              (let topResults = take 10 found
               in \<lparr>message = Found (length found),
                   results = map (\<lambda>r. \<lparr>sr_id = sr_id r, sr_title = sr_title r,
                                         sr_description = sr_description r,
                                         sr_category = sr_category r,
                                         relevance = relevance r\<rparr>) topResults,
                   totalCount = length found\<rparr>)))"

section \<open>The remote source (sources/remote.ts, the three-mode class)\<close>

text \<open>
  The source tree holds two copies of the class. The model follows the one whose
  constructor takes \<open>(url, headers, docs)\<close>: the manager constructs it with these three
  arguments and \<open>RemoteSourceSchema\<close> declares \<open>docs\<close>. The other copy takes \<open>(url, headers)\<close>
  and its \<open>load\<close> is the body of \<open>loadFromApi\<close> below, with the same \<open>transformStandards\<close>.
  The platform is an argument: \<open>fetch\<close> maps a url and the request headers to a
  rejection or a response, a response carries \<open>ok\<close> and what \<open>text()\<close> and \<open>json()\<close> resolve
  to, and \<open>new URL(u).pathname\<close> is a function that may throw. \<open>json()\<close> is read through
  the type the source casts it to. Every load returns its documents together with the
  requests it made, in order.
\<close>

record RemoteStandard =
  std_id :: string
  std_title :: string
  std_description :: "string option"
  std_category :: string
  std_subcategory :: "string option"
  std_tags :: "string list option"
  std_content :: string
  std_version :: "string option"
  std_lastUpdated :: "string option"

record RemoteStandardsResponse =
  resp_standards :: "RemoteStandard list option"
  resp_data :: "RemoteStandard list option"

record Response =
  resp_ok :: bool
  resp_text :: "js_error + string"
  resp_json :: "js_error + RemoteStandardsResponse"

type_synonym request = "string \<times> headers"

record platform =
  pf_matter :: matter_fn
  pf_fetch :: "string \<Rightarrow> headers \<Rightarrow> js_error + Response"
  pf_url_pathname :: "string \<Rightarrow> js_error + string"

record RemoteSource_state =
  rs_url :: string
  rs_headers :: headers
  rs_docs :: "RemoteDocConfig list"

definition RemoteSource_new ::
  "string \<Rightarrow> headers option \<Rightarrow> RemoteDocConfig list option \<Rightarrow> RemoteSource_state" where
  "RemoteSource_new u h d =
     \<lparr>rs_url = u,
      rs_headers = (case h of Some hs \<Rightarrow> hs | None \<Rightarrow> Map.empty),
      rs_docs = (case d of Some ds \<Rightarrow> ds | None \<Rightarrow> [])\<rparr>"

definition isMarkdownUrl :: "string \<Rightarrow> bool" where
  "isMarkdownUrl u =
     (let lowerUrl = toLowerCase u
      in endsWith lowerUrl ''.md'' \<or> endsWith lowerUrl ''.markdown'')"

definition markdown_request :: "RemoteSource_state \<Rightarrow> string \<Rightarrow> request" where
  "markdown_request self u =
     (u, [''Accept'' \<mapsto> ''text/plain, text/markdown, */*''] ++ rs_headers self)"

definition api_request :: "RemoteSource_state \<Rightarrow> request" where
  "api_request self =
     (rs_url self, [''Content-Type'' \<mapsto> ''application/json''] ++ rs_headers self)"

text \<open>\<open>loadMarkdownFile\<close>: every exception inside the \<open>try\<close> block ends in \<open>return null\<close>.\<close>

definition loadMarkdownFile ::
  "platform \<Rightarrow> RemoteSource_state \<Rightarrow> RemoteDocConfig \<Rightarrow> StandardDocument option \<times> request list"
  where
  "loadMarkdownFile pf self cfg =
     (let req = markdown_request self (rd_url cfg)
      in ((case pf_fetch pf (fst req) (snd req) of
             Inl err \<Rightarrow> None
           | Inr response \<Rightarrow>
               if \<not> resp_ok response then None
               else (case resp_text response of
                       Inl err \<Rightarrow> None
                     | Inr body \<Rightarrow>
                         if \<not> isValidMarkdown body then None
                         else (case pf_url_pathname pf (rd_url cfg) of
                                 Inl err \<Rightarrow> None
                               | Inr urlPath \<Rightarrow>
                                   (let fileName = or_str (Some (last (split_on (CHR ''/'') urlPath)))
                                                     ''remote.md'';
                                        cat = or_str (rd_category cfg) ''custom'';
                                        subcat = or_str (rd_subcategory cfg) [];
                                        relativePath =
                                          (if subcat \<noteq> [] then cat @ ''/'' @ subcat @ ''/'' @ fileName
                                           else cat @ ''/'' @ fileName)
                                    in (case parseMarkdown (pf_matter pf) body relativePath SrcRemote of
                                          Inl err \<Rightarrow> None
                                        | Inr doc \<Rightarrow> Some (doc\<lparr>path := rd_url cfg\<rparr>)))))),
          [req]))"

text \<open>
  \<open>transformStandards\<close> has no handler: an exception of \<open>parseMarkdown\<close> leaves the loop and
  reaches the \<open>catch\<close> of \<open>loadFromApi\<close>.
\<close>

definition direct_document :: "RemoteSource_state \<Rightarrow> RemoteStandard \<Rightarrow> StandardDocument" where
  "direct_document self standard =
     \<lparr>doc_id = std_id standard,
      title = std_title standard,
      description = std_description standard,
      category = std_category standard,
      subcategory = std_subcategory standard,
      tags = (case std_tags standard of Some ts \<Rightarrow> ts | None \<Rightarrow> []),
      version = std_version standard,
      lastUpdated = std_lastUpdated standard,
      source = SrcRemote,
      path = rs_url self @ ''/'' @ std_id standard,
      content = std_content standard,
      frontmatter = empty_frontmatter\<rparr>"

fun transformStandards_loop ::
  "platform \<Rightarrow> RemoteSource_state \<Rightarrow> RemoteStandard list \<Rightarrow> StandardDocument list
     \<Rightarrow> js_error + StandardDocument list" where
  "transformStandards_loop pf self [] acc = Inr acc"
| "transformStandards_loop pf self (standard # rest) acc =
     (if std_content standard = [] \<or> \<not> isValidMarkdown (std_content standard) then
        transformStandards_loop pf self rest acc
      else if startsWith (std_content standard) ''---'' then
        (case parseMarkdown (pf_matter pf) (std_content standard)
                (std_category standard @ ''/'' @ std_id standard @ ''.md'') SrcRemote of
           Inl err \<Rightarrow> Inl err
         | Inr doc \<Rightarrow> transformStandards_loop pf self rest (acc @ [doc]))
      else transformStandards_loop pf self rest (acc @ [direct_document self standard]))"

definition transformStandards ::
  "platform \<Rightarrow> RemoteSource_state \<Rightarrow> RemoteStandard list \<Rightarrow> js_error + StandardDocument list"
  where
  "transformStandards pf self standards = transformStandards_loop pf self standards []"

definition loadFromApi ::
  "platform \<Rightarrow> RemoteSource_state \<Rightarrow> StandardDocument list \<times> request list" where
  "loadFromApi pf self =
     (let req = api_request self
      in ((case pf_fetch pf (fst req) (snd req) of
             Inl err \<Rightarrow> []
           | Inr response \<Rightarrow>
               if \<not> resp_ok response then []
               else (case resp_json response of
                       Inl err \<Rightarrow> []
                     | Inr dat \<Rightarrow>
                         (let standards =
                                (case resp_standards dat of
                                   Some xs \<Rightarrow> xs
                                 | None \<Rightarrow> (case resp_data dat of Some ys \<Rightarrow> ys | None \<Rightarrow> []))
                          in (case transformStandards pf self standards of
                                Inl err \<Rightarrow> []
                              | Inr docs \<Rightarrow> docs)))),
          [req]))"

definition load_listed ::
  "platform \<Rightarrow> RemoteSource_state \<Rightarrow> RemoteDocConfig
     \<Rightarrow> StandardDocument list \<times> request list \<Rightarrow> StandardDocument list \<times> request list" where
  "load_listed pf self doc st =
     (case loadMarkdownFile pf self doc of
        (Some loadedDoc, reqs) \<Rightarrow> (fst st @ [loadedDoc], snd st @ reqs)
      | (None, reqs) \<Rightarrow> (fst st, snd st @ reqs))"

definition RemoteSource_load ::
  "platform \<Rightarrow> RemoteSource_state \<Rightarrow> StandardDocument list \<times> request list" where
  "RemoteSource_load pf self =
     (if length (rs_docs self) > 0 then fold (load_listed pf self) (rs_docs self) ([], [])
      else if isMarkdownUrl (rs_url self) then
        (case loadMarkdownFile pf self
                \<lparr>rd_url = rs_url self, rd_category = None, rd_subcategory = None\<rparr> of
           (Some doc, reqs) \<Rightarrow> ([doc], reqs)
         | (None, reqs) \<Rightarrow> ([], reqs))
      else loadFromApi pf self)"

section \<open>Reference definitions\<close>

text \<open>
  The definitions of this section are not translations of source functions. They say, in
  the words of the specification, what the functions above are compared with.
\<close>

subsection \<open>Query terms and relevance as the specification words them\<close>

text \<open>
  The words of a string: skip white space, take the characters up to the next white space,
  repeat. \<open>spec_terms\<close> are the words of the lowercased query.
\<close>

function ws_words :: "string \<Rightarrow> string list" where
  "ws_words s =
     (let r = dropWhile is_ws s
      in if r = [] then []
         else takeWhile (\<lambda>c. \<not> is_ws c) r # ws_words (dropWhile (\<lambda>c. \<not> is_ws c) r))"
  by pat_completeness auto
termination
proof (relation "measure length")
  show "wf (measure length)" by simp
next
  fix s r :: string
  assume r: "r = dropWhile is_ws s" and ne: "r \<noteq> []"
  then have "\<not> is_ws (hd r)" by (metis hd_dropWhile)
  with ne have "length (dropWhile (\<lambda>c. \<not> is_ws c) r) < length r"
    by (cases r) (auto simp: less_Suc_eq_le length_dropWhile_le)
  also have "length r \<le> length s" using r by (simp add: length_dropWhile_le)
  finally show "(dropWhile (\<lambda>c. \<not> is_ws c) r, s) \<in> measure length" by simp
qed

declare ws_words.simps [simp del]

definition spec_terms :: "string \<Rightarrow> string list" where
  "spec_terms query = ws_words (toLowerCase query)"

text \<open>
  The score of one term on one document: 10 for the title, 5 for the description, 7 for
  every tag, 3 for the category, 1 for the content, each field compared in lower case.
\<close>

definition spec_term_score :: "StandardDocument \<Rightarrow> string \<Rightarrow> int" where
  "spec_term_score doc t =
     (if includesStr (toLowerCase (title doc)) t then 10 else 0)
     + (case description doc of
          None \<Rightarrow> 0
        | Some d \<Rightarrow> if includesStr (toLowerCase d) t then 5 else 0)
     + 7 * int (length (filter (\<lambda>tag. includesStr (toLowerCase tag) t) (tags doc)))
     + (if includesStr (toLowerCase (category doc)) t then 3 else 0)
     + (if includesStr (toLowerCase (content doc)) t then 1 else 0)"

definition spec_relevance :: "string list \<Rightarrow> StandardDocument \<Rightarrow> int" where
  "spec_relevance ts doc = sum_list (map (spec_term_score doc) ts)"

definition spec_result :: "string list \<Rightarrow> StandardDocument \<Rightarrow> SearchResult" where
  "spec_result ts doc =
     \<lparr>sr_id = doc_id doc, sr_title = title doc, sr_description = description doc,
      sr_category = category doc, relevance = spec_relevance ts doc\<rparr>"

subsection \<open>What one source contributes to a load\<close>

definition successful_docs :: "loader \<Rightarrow> DocumentSource \<Rightarrow> StandardDocument list" where
  "successful_docs ld src = (case ld src of Inr docs \<Rightarrow> docs | Inl err \<Rightarrow> [])"

subsection \<open>Id derivation as the specification words it\<close>

text \<open>
  Strip a leading \<open>./\<close>, strip a leading \<open>standards/\<close>, strip the extension \<open>.md\<close> or
  \<open>.markdown\<close>, replace the separators by hyphens, lowercase.
\<close>

definition spec_strip_extension :: "string \<Rightarrow> string" where
  "spec_strip_extension s =
     (if endsWith (toLowerCase s) ''.md'' then take (length s - 3) s
      else if endsWith (toLowerCase s) ''.markdown'' then take (length s - 9) s
      else s)"

definition spec_generateId :: "string \<Rightarrow> string" where
  "spec_generateId p =
     toLowerCase (slashes_to_hyphens (spec_strip_extension (strip_standards_prefix
        (if startsWith p ''./'' then drop 2 p else p))))"

subsection \<open>Records of the JSON API\<close>

text \<open>
  The array the API mode transforms, the records it keeps, and the document each kept
  record becomes. \<open>parses_cleanly\<close> says that a kept record with front matter does not make
  the parser throw.
\<close>

definition api_records :: "RemoteStandardsResponse \<Rightarrow> RemoteStandard list" where
  "api_records dat =
     (case resp_standards dat of
        Some xs \<Rightarrow> xs
      | None \<Rightarrow> (case resp_data dat of Some ys \<Rightarrow> ys | None \<Rightarrow> []))"

definition usable_record :: "RemoteStandard \<Rightarrow> bool" where
  "usable_record s = (trim (std_content s) \<noteq> [])"

definition parse_record :: "platform \<Rightarrow> RemoteStandard \<Rightarrow> js_error + StandardDocument" where
  "parse_record pf s =
     parseMarkdown (pf_matter pf) (std_content s) (std_category s @ ''/'' @ std_id s @ ''.md'')
       SrcRemote"

definition record_document ::
  "platform \<Rightarrow> RemoteSource_state \<Rightarrow> RemoteStandard \<Rightarrow> StandardDocument" where
  "record_document pf self s =
     (if startsWith (std_content s) ''---'' then
        (case parse_record pf s of Inr doc \<Rightarrow> doc | Inl err \<Rightarrow> direct_document self s)
      else direct_document self s)"

definition parses_cleanly :: "platform \<Rightarrow> RemoteStandard \<Rightarrow> bool" where
  "parses_cleanly pf s =
     (\<not> (usable_record s \<and> startsWith (std_content s) ''---'' \<and> isl (parse_record pf s)))"

section \<open>Example data\<close>

text \<open>
  Concrete inputs for the examples below. \<open>sample_matter\<close> tabulates gray-matter on the
  texts used: a text without front matter comes back whole with no data, \<open>text_with_id\<close>
  splits into its \<open>id\<close> and its body, and \<open>text_malformed\<close>, whose YAML opens a flow sequence
  and never closes it, makes the YAML loader throw.
\<close>

definition sample_doc :: "string \<Rightarrow> string \<Rightarrow> string \<Rightarrow> StandardDocument" where
  "sample_doc i ttl body =
     \<lparr>doc_id = i, title = ttl, description = None, category = ''custom'', subcategory = None,
      tags = [], version = None, lastUpdated = None, source = SrcLocal, path = i @ ''.md'',
      content = body, frontmatter = empty_frontmatter\<rparr>"

definition two_sources_config :: StandardsConfig where
  "two_sources_config =
     \<lparr>cfg_sources = [LocalConfig ''first'', LocalConfig ''second''], cacheTimeout = 3600\<rparr>"

definition colliding_loader :: loader where
  "colliding_loader src =
     (if src = LocalSource ''first'' then Inr [sample_doc ''guide'' ''From first'' ''one'']
      else if src = LocalSource ''second'' then Inr [sample_doc ''guide'' ''From second'' ''two'']
      else Inl (Thrown ''unreachable''))"

definition three_sources_config :: StandardsConfig where
  "three_sources_config =
     \<lparr>cfg_sources = [LocalConfig ''./standards'',
                     RemoteConfig ''https://example.com/api'' None None,
                     GitConfig ''team/standards'' ''main'' None None],
      cacheTimeout = 3600\<rparr>"

definition failing_remote_loader :: loader where
  "failing_remote_loader src =
     (case src of
        LocalSource p \<Rightarrow> Inr [sample_doc ''local-a'' ''Local A'' ''a'',
                               sample_doc ''local-b'' ''Local B'' ''b'']
      | RemoteSource u h d \<Rightarrow> Inl (Thrown ''ECONNREFUSED'')
      | GitSource r b p t \<Rightarrow> Inr [sample_doc ''git-c'' ''Git C'' ''c''])"

definition twelve_guides :: "StandardDocument list" where
  "twelve_guides =
     map (\<lambda>i. sample_doc i ''Style guide'' ''text'')
       [''g01'', ''g02'', ''g03'', ''g04'', ''g05'', ''g06'', ''g07'', ''g08'', ''g09'', ''g10'',
        ''g11'', ''g12'']"

definition guides_manager :: StandardsManager where
  "guides_manager =
     (StandardsManager_new two_sources_config)\<lparr>documents := twelve_guides, initialized := True\<rparr>"

definition text_with_id :: string where
  "text_with_id = ''---'' @ [CHR 0x0A] @ ''id: custom-id'' @ [CHR 0x0A] @ ''---'' @ [CHR 0x0A]
                   @ ''Body text'' @ [CHR 0x0A]"

definition text_malformed :: string where
  "text_malformed = ''---'' @ [CHR 0x0A] @ ''tags: [vue'' @ [CHR 0x0A] @ ''---'' @ [CHR 0x0A]
                     @ ''Body text'' @ [CHR 0x0A]"

definition sample_matter :: matter_fn where
  "sample_matter raw =
     (if raw = text_malformed then Inl (Thrown ''YAMLException'')
      else if raw = text_with_id then
        Inr (empty_frontmatter\<lparr>fm_id := Some ''custom-id''\<rparr>, ''Body text'' @ [CHR 0x0A])
      else Inr (empty_frontmatter, raw))"

definition blank_record :: RemoteStandard where
  "blank_record =
     \<lparr>std_id = ''empty-note'', std_title = ''Empty note'', std_description = None,
      std_category = ''custom'', std_subcategory = None, std_tags = None,
      std_content = ''   '', std_version = None, std_lastUpdated = None\<rparr>"

definition plain_record :: RemoteStandard where
  "plain_record =
     \<lparr>std_id = ''api-naming'', std_title = ''API naming'', std_description = None,
      std_category = ''backend'', std_subcategory = None, std_tags = Some [''api''],
      std_content = ''Use nouns.'', std_version = None, std_lastUpdated = None\<rparr>"

definition fronted_record :: RemoteStandard where
  "fronted_record =
     \<lparr>std_id = ''with-front-matter'', std_title = ''Ignored'', std_description = None,
      std_category = ''backend'', std_subcategory = None, std_tags = None,
      std_content = text_with_id, std_version = None, std_lastUpdated = None\<rparr>"

definition sample_fetch :: "string \<Rightarrow> headers \<Rightarrow> js_error + Response" where
  "sample_fetch u h =
     (if u = ''https://example.com/api'' then
        Inr \<lparr>resp_ok = True, resp_text = Inl (Thrown ''not text''),
             resp_json = Inr \<lparr>resp_standards = Some [blank_record, plain_record, fronted_record],
                               resp_data = None\<rparr>\<rparr>
      else if u = ''https://example.com/blank'' then
        Inr \<lparr>resp_ok = True, resp_text = Inl (Thrown ''not text''),
             resp_json = Inr \<lparr>resp_standards = None, resp_data = Some [blank_record]\<rparr>\<rparr>
      else if u = ''https://example.com/guide.md'' then
        Inr \<lparr>resp_ok = True, resp_text = Inr text_with_id,
             resp_json = Inl (Thrown ''SyntaxError'')\<rparr>
      else Inl (Thrown ''fetch failed''))"

definition sample_platform :: platform where
  "sample_platform =
     \<lparr>pf_matter = sample_matter,
      pf_fetch = sample_fetch,
      pf_url_pathname = (\<lambda>u. if u = ''https://example.com/guide.md'' then Inr ''/guide.md''
                              else Inl (Thrown ''TypeError''))\<rparr>"

definition guide_config :: RemoteDocConfig where
  "guide_config =
     \<lparr>rd_url = ''https://example.com/guide.md'', rd_category = None, rd_subcategory = None\<rparr>"

definition missing_config :: RemoteDocConfig where
  "missing_config =
     \<lparr>rd_url = ''https://example.com/missing.md'', rd_category = Some ''frontend'',
      rd_subcategory = Some ''vue''\<rparr>"

definition guide_doc :: StandardDocument where
  "guide_doc =
     \<lparr>doc_id = ''custom-id'', title = ''guide'', description = Some ''Body text'',
      category = ''custom'', subcategory = None, tags = [], version = None, lastUpdated = None,
      source = SrcRemote, path = ''https://example.com/guide.md'', content = ''Body text'',
      frontmatter = empty_frontmatter\<lparr>fm_id := Some ''custom-id''\<rparr>\<rparr>"

section \<open>Properties of the cache\<close>

text \<open>
  C2. \<open>set\<close> stores the value under the key with expiry \<open>now + (ttl ?? defaultTTL)\<close>, replacing
  whatever the key held and touching no other key. A later \<open>get\<close> of that key at time \<open>t'\<close>
  returns the value and leaves the cache alone when \<open>t' \<le> expiry\<close>; when \<open>t' > expiry\<close> it
  reports absent and the entry is gone from the store. With a ttl of 1000 ms and a clock
  advanced by 1100 ms the \<open>get\<close> reports absent.
\<close>

theorem cache_set_then_get:
  "store (Cache_set t k v ttl c) k
     = Some \<lparr>data = v, timestamp = t,
             expiresAt = t + (case ttl of Some d \<Rightarrow> d | None \<Rightarrow> defaultTTL c)\<rparr>
   \<and> (k' \<noteq> k \<longrightarrow> store (Cache_set t k v ttl c) k' = store c k')
   \<and> (t' \<le> t + (case ttl of Some d \<Rightarrow> d | None \<Rightarrow> defaultTTL c) \<longrightarrow>
         Cache_get t' k (Cache_set t k v ttl c) = (Some v, Cache_set t k v ttl c))
   \<and> (t' > t + (case ttl of Some d \<Rightarrow> d | None \<Rightarrow> defaultTTL c) \<longrightarrow>
         fst (Cache_get t' k (Cache_set t k v ttl c)) = None
         \<and> store (snd (Cache_get t' k (Cache_set t k v ttl c))) k = None
         \<and> (k' \<noteq> k \<longrightarrow> store (snd (Cache_get t' k (Cache_set t k v ttl c))) k' = store c k'))
   \<and> (store c k = Some e \<and> t' \<le> expiresAt e \<longrightarrow> Cache_get t' k c = (Some (data e), c))
   \<and> (store c k = Some e \<and> t' > expiresAt e \<longrightarrow>
         Cache_get t' k c = (None, c\<lparr>store := (store c)(k := None)\<rparr>))
   \<and> fst (Cache_get (t + 1100) k (Cache_set t k v (Some 1000) c)) = None"
  by (simp add: Cache_set_def Cache_get_def Let_def)

theorem cache_set_then_get_witness:
  "fst (Cache_get 900 ''key1'' (Cache_set 0 ''key1'' ''value1'' (Some 1000) (Cache_new 10000)))
     = Some ''value1''
   \<and> fst (Cache_get 1100 ''key1'' (Cache_set 0 ''key1'' ''value1'' None (Cache_new 1000))) = None
   \<and> store (snd (Cache_get 1100 ''key1''
               (Cache_set 0 ''key1'' ''value1'' None
                  (Cache_set 0 ''key2'' ''value2'' (Some 2000) (Cache_new 1000))))) ''key2''
       = Some \<lparr>data = ''value2'', timestamp = 0, expiresAt = 2000\<rparr>
   \<and> fst (Cache_get 600 ''key1'' (Cache_set 0 ''key1'' ''value1'' (Some 500) (Cache_new 10000)))
       = None"
  using cache_set_then_get [of 0 "''key1''" "''value1''" "Some 1000" "Cache_new 10000"
                               "''key2''" 900 undefined]
        cache_set_then_get [of 0 "''key1''" "''value1''" None
                               "Cache_set 0 ''key2'' ''value2'' (Some 2000) (Cache_new 1000)"
                               "''key2''" 1100 undefined]
        cache_set_then_get [of 0 "''key1''" "''value1''" "Some 500" "Cache_new 10000"
                               "''key2''" 600 undefined]
  by (simp add: Cache_new_def Cache_set_def Cache_get_def)


section \<open>Properties of the search\<close>

subsection \<open>The query words\<close>

lemma ws_words_Nil: "ws_words [] = []"
  by (simp add: ws_words.simps)

lemma ws_words_ws: "is_ws c \<Longrightarrow> ws_words (c # cs) = ws_words cs"
  by (simp add: ws_words.simps [of "c # cs"] ws_words.simps [of cs])

lemma ws_words_word:
  "\<not> is_ws c \<Longrightarrow>
     ws_words (c # cs) = (c # takeWhile (\<lambda>c. \<not> is_ws c) cs) # ws_words (dropWhile (\<lambda>c. \<not> is_ws c) cs)"
  by (simp add: ws_words.simps [of "c # cs"])

lemma split_ws_from_words:
  "(inws \<longrightarrow> cur = []) \<Longrightarrow>
     filter_Boolean (split_ws_from inws cur s)
       = filter_Boolean [cur @ takeWhile (\<lambda>c. \<not> is_ws c) s]
           @ ws_words (dropWhile (\<lambda>c. \<not> is_ws c) s)"
proof (induction s arbitrary: inws cur)
  case Nil
  then show ?case by (simp add: ws_words_Nil)
next
  case (Cons c cs)
  show ?case
  proof (cases "is_ws c")
    case True
    have "ws_words (c # cs) = ws_words cs" using True by (rule ws_words_ws)
    moreover have "ws_words cs = filter_Boolean [takeWhile (\<lambda>c. \<not> is_ws c) cs] @ ws_words (dropWhile (\<lambda>c. \<not> is_ws c) cs)"
      by (cases cs) (auto simp: ws_words_Nil ws_words_ws ws_words_word filter_Boolean_def)
    ultimately show ?thesis using True Cons.prems Cons.IH [of True "[]"]
      by (auto simp: filter_Boolean_def)
  next
    case False
    then show ?thesis using Cons.IH [of False "cur @ [c]"] by simp
  qed
qed

lemma split_ws_words: "filter_Boolean (split_ws s) = ws_words s"
proof -
  have "ws_words s = filter_Boolean [takeWhile (\<lambda>c. \<not> is_ws c) s] @ ws_words (dropWhile (\<lambda>c. \<not> is_ws c) s)"
    by (cases s) (auto simp: ws_words_Nil ws_words_ws ws_words_word filter_Boolean_def)
  then show ?thesis using split_ws_from_words [of False "[]" s] by (simp add: split_ws_def)
qed

lemma ws_words_nonempty: "t \<in> set (ws_words s) \<Longrightarrow> t \<noteq> []"
proof (induction s arbitrary: t rule: ws_words.induct)
  case (1 s)
  show ?case
  proof (cases "dropWhile is_ws s")
    case Nil
    then show ?thesis using "1.prems" by (simp add: ws_words.simps [of s])
  next
    case (Cons c cs)
    then have "\<not> is_ws c" by (metis hd_dropWhile list.sel(1) list.distinct(1))
    then show ?thesis using "1.prems" "1.IH" [OF refl, of t] Cons
      by (auto simp: ws_words.simps [of s] Let_def)
  qed
qed

lemma is_ws_toLowerChar: "is_ws (toLowerChar c) = is_ws c"
  by (auto simp: is_ws_def toLowerChar_def)

lemma toLowerCase_trim: "toLowerCase (trim s) = trim (toLowerCase s)"
  by (simp add: toLowerCase_def trim_def rev_map dropWhile_map o_def is_ws_toLowerChar)

lemma ws_words_all_ws: "\<forall>c \<in> set w. is_ws c \<Longrightarrow> ws_words w = []"
  by (induction w) (auto simp: ws_words_Nil ws_words_ws)

lemma ws_words_append_ws:
  assumes "\<forall>c \<in> set w. is_ws c"
  shows "ws_words (s @ w) = ws_words s"
proof (induction "length s" arbitrary: s rule: less_induct)
  case less
  show ?case
  proof (cases s)
    case Nil
    then show ?thesis using assms by (simp add: ws_words_all_ws ws_words_Nil)
  next
    case (Cons c cs)
    show ?thesis
    proof (cases "is_ws c")
      case True
      then show ?thesis using Cons less [of cs] by (simp add: ws_words_ws)
    next
      case False
      note nws = this
      have w: "takeWhile (\<lambda>c. \<not> is_ws c) w = [] \<and> dropWhile (\<lambda>c. \<not> is_ws c) w = w"
        using assms by (cases w) auto
      show ?thesis
      proof (cases "\<forall>x \<in> set cs. \<not> is_ws x")
        case True
        then have a: "takeWhile (\<lambda>c. \<not> is_ws c) (cs @ w) = cs"
          and b: "dropWhile (\<lambda>c. \<not> is_ws c) (cs @ w) = w"
          and c: "takeWhile (\<lambda>c. \<not> is_ws c) cs = cs"
          and d: "dropWhile (\<lambda>c. \<not> is_ws c) cs = []"
          using w by (simp_all add: takeWhile_append2 dropWhile_append2)
        have "ws_words w = []" using assms by (rule ws_words_all_ws)
        then show ?thesis using Cons nws
          by (simp add: ws_words_word a b c d ws_words_Nil)
      next
        case False
        then obtain x where x: "x \<in> set cs" "\<not> \<not> is_ws x" by blast
        have t: "takeWhile (\<lambda>c. \<not> is_ws c) (cs @ w) = takeWhile (\<lambda>c. \<not> is_ws c) cs"
          using x by (rule takeWhile_append1)
        have d: "dropWhile (\<lambda>c. \<not> is_ws c) (cs @ w) = dropWhile (\<lambda>c. \<not> is_ws c) cs @ w"
          using x by (rule dropWhile_append1)
        have "length (dropWhile (\<lambda>c. \<not> is_ws c) cs) < length s"
          using Cons by (simp add: less_Suc_eq_le length_dropWhile_le)
        then have "ws_words (dropWhile (\<lambda>c. \<not> is_ws c) cs @ w)
                    = ws_words (dropWhile (\<lambda>c. \<not> is_ws c) cs)"
          by (rule less)
        then show ?thesis using Cons nws by (simp add: ws_words_word t d)
      qed
    qed
  qed
qed

lemma ws_words_dropWhile: "ws_words (dropWhile is_ws s) = ws_words s"
  by (induction s) (auto simp: ws_words_ws)

lemma ws_words_trim: "ws_words (trim s) = ws_words s"
proof -
  have "\<forall>c \<in> set (takeWhile is_ws (rev (dropWhile is_ws s))). is_ws c"
    by (auto dest: set_takeWhileD)
  then have "\<forall>c \<in> set (rev (takeWhile is_ws (rev (dropWhile is_ws s)))). is_ws c"
    by simp
  then have "ws_words (trim s @ rev (takeWhile is_ws (rev (dropWhile is_ws s)))) = ws_words (trim s)"
    by (rule ws_words_append_ws)
  moreover have "trim s @ rev (takeWhile is_ws (rev (dropWhile is_ws s))) = dropWhile is_ws s"
    unfolding trim_def
    by (metis rev_append rev_rev_ident takeWhile_dropWhile_id)
  ultimately show ?thesis by (simp add: ws_words_dropWhile)
qed

lemma spec_terms_trim: "spec_terms (trim query) = spec_terms query"
  by (simp add: spec_terms_def toLowerCase_trim ws_words_trim)

subsection \<open>The relevance of a document\<close>

lemma count_matches_sum:
  "count_matches w f ts r = r + sum_list (map (\<lambda>t. if includesStr f t then w else 0) ts)"
  unfolding count_matches_def
  by (induction ts arbitrary: r) auto

lemma includes_empty_field: "t \<noteq> [] \<Longrightarrow> \<not> includesStr [] t"
  by (simp add: includesStr_def)

lemma tags_fold_sum:
  "fold (\<lambda>tag r. count_matches 7 (toLowerCase tag) ts r) tgs r
     = r + sum_list (map (\<lambda>t. 7 * int (length (filter (\<lambda>tag. includesStr (toLowerCase tag) t) tgs))) ts)"
proof (induction tgs arbitrary: r)
  case Nil
  then show ?case by simp
next
  case (Cons g gs)
  have "sum_list (map (\<lambda>t. 7 * int (length (filter (\<lambda>tag. includesStr (toLowerCase tag) t) (g # gs)))) ts)
        = sum_list (map (\<lambda>t. if includesStr (toLowerCase g) t then 7 else 0) ts)
          + sum_list (map (\<lambda>t. 7 * int (length (filter (\<lambda>tag. includesStr (toLowerCase tag) t) gs))) ts)"
    by (induction ts) auto
  note split = this
  have "fold (\<lambda>tag r. count_matches 7 (toLowerCase tag) ts r) (g # gs) r
          = fold (\<lambda>tag r. count_matches 7 (toLowerCase tag) ts r) gs
              (count_matches 7 (toLowerCase g) ts r)"
    by simp
  also have "\<dots> = count_matches 7 (toLowerCase g) ts r
                      + sum_list (map (\<lambda>t. 7 * int (length (filter (\<lambda>tag. includesStr (toLowerCase tag) t) gs))) ts)"
    by (rule Cons.IH)
  finally show ?case unfolding split by (simp add: count_matches_sum)
qed

lemma doc_relevance_spec:
  assumes "\<forall>t \<in> set ts. t \<noteq> []"
  shows "doc_relevance ts doc = spec_relevance ts doc"
proof -
  have d: "(case description doc of None \<Rightarrow> r
            | Some d \<Rightarrow> if d = [] then r else count_matches 5 (toLowerCase d) ts r)
           = r + sum_list (map (\<lambda>t. case description doc of None \<Rightarrow> 0
                                     | Some d \<Rightarrow> if includesStr (toLowerCase d) t then 5 else 0) ts)"
    for r
  proof (cases "description doc")
    case None
    then show ?thesis by simp
  next
    case (Some d)
    show ?thesis
    proof (cases "d = []")
      case True
      have "sum_list (map (\<lambda>t. if includesStr [] t then (5::int) else 0) ts) = 0"
        using assms by (induction ts) (auto simp: includes_empty_field)
      then show ?thesis using Some True by (simp add: toLowerCase_def)
    next
      case False
      then show ?thesis using Some by (simp add: count_matches_sum)
    qed
  qed
  have s: "spec_relevance ts doc
           = sum_list (map (\<lambda>t. if includesStr (toLowerCase (title doc)) t then 10 else 0) ts)
             + sum_list (map (\<lambda>t. case description doc of None \<Rightarrow> 0
                                   | Some d \<Rightarrow> if includesStr (toLowerCase d) t then 5 else 0) ts)
             + sum_list (map (\<lambda>t. 7 * int (length (filter (\<lambda>tag. includesStr (toLowerCase tag) t) (tags doc)))) ts)
             + sum_list (map (\<lambda>t. if includesStr (toLowerCase (category doc)) t then 3 else 0) ts)
             + sum_list (map (\<lambda>t. if includesStr (toLowerCase (content doc)) t then 1 else 0) ts)"
    unfolding spec_relevance_def spec_term_score_def
    by (induction ts) auto
  have "doc_relevance ts doc
          = count_matches 1 (toLowerCase (content doc)) ts
              (count_matches 3 (toLowerCase (category doc)) ts
                 (count_matches 10 (toLowerCase (title doc)) ts 0
                  + sum_list (map (\<lambda>t. case description doc of None \<Rightarrow> 0
                                        | Some d \<Rightarrow> if includesStr (toLowerCase d) t then 5 else 0) ts)
                  + sum_list (map (\<lambda>t. 7 * int (length (filter (\<lambda>tag. includesStr (toLowerCase tag) t) (tags doc)))) ts)))"
    by (simp only: doc_relevance_def Let_def tags_fold_sum d)
  then show ?thesis
    unfolding s by (simp add: count_matches_sum)
qed

lemma spec_term_score_nonneg: "0 \<le> spec_term_score doc t"
  by (auto simp: spec_term_score_def split: option.splits)

lemma spec_relevance_nonneg: "0 \<le> spec_relevance ts doc"
  unfolding spec_relevance_def
  by (induction ts) (auto simp: spec_term_score_nonneg)

lemma search_step_spec:
  assumes "\<forall>t \<in> set ts. t \<noteq> []"
  shows "search_step ts d acc
         = (if spec_relevance ts d \<noteq> 0 then acc @ [spec_result ts d] else acc)"
proof -
  have "spec_relevance ts d > 0 \<longleftrightarrow> spec_relevance ts d \<noteq> 0"
    using spec_relevance_nonneg [of ts d] by arith
  then show ?thesis
    by (simp add: search_step_def Let_def doc_relevance_spec [OF assms] spec_result_def)
qed

lemma search_fold:
  assumes "\<forall>t \<in> set ts. t \<noteq> []"
  shows "fold (search_step ts) docs acc
         = acc @ map (spec_result ts) (filter (\<lambda>d. spec_relevance ts d \<noteq> 0) docs)"
proof (induction docs arbitrary: acc)
  case Nil
  then show ?case by simp
next
  case (Cons d ds)
  have "fold (search_step ts) (d # ds) acc = fold (search_step ts) ds (search_step ts d acc)"
    by simp
  also have "\<dots> = search_step ts d acc
                      @ map (spec_result ts) (filter (\<lambda>d. spec_relevance ts d \<noteq> 0) ds)"
    by (rule Cons.IH)
  also have "\<dots> = acc @ map (spec_result ts) (filter (\<lambda>d. spec_relevance ts d \<noteq> 0) (d # ds))"
    by (simp add: search_step_spec [OF assms])
  finally show ?case .
qed

lemma desc_sorted:
  "sorted (map (\<lambda>r. - relevance r) xs) = sorted_wrt (\<lambda>a b. relevance a \<ge> relevance b) xs"
  by (simp add: sorted_map)

lemma searchStandards_terms:
  "searchStandards m query
     = sort_key (\<lambda>r. - relevance r)
         (map (spec_result (spec_terms query))
            (filter (\<lambda>d. spec_relevance (spec_terms query) d \<noteq> 0) (documents m)))"
proof -
  have ne: "\<forall>t \<in> set (spec_terms query). t \<noteq> []"
    using ws_words_nonempty by (auto simp: spec_terms_def)
  show ?thesis
    using search_fold [OF ne, of "documents m" "[]"]
    by (simp add: searchStandards_def Let_def split_ws_words spec_terms_def)
qed

lemma searchStandards_trim: "searchStandards m (trim query) = searchStandards m query"
  by (simp add: searchStandards_terms spec_terms_trim)

lemma searchStandards_blank: "trim query = [] \<Longrightarrow> searchStandards m query = []"
proof -
  assume "trim query = []"
  then have "spec_terms query = []"
    using spec_terms_trim [of query] by (simp add: spec_terms_def toLowerCase_def ws_words_Nil)
  then show ?thesis by (simp add: searchStandards_terms spec_relevance_def)
qed

text \<open>
  C1. For every corpus and every query, \<open>searchStandards\<close> ranks with the words of the
  lowercased query (its maximal runs of characters that are not white space). The result is
  the stable sort, by descending relevance, of the documents whose relevance is not 0, taken
  in corpus order, where the relevance of a document is the sum over the words of 10 for the
  title, 5 for the description, 7 for each tag, 3 for the category and 1 for the content
  that contains the word, every field compared in lower case. The result is sorted by
  descending relevance, and the results of any one relevance are the documents of that
  relevance in corpus order.
\<close>

theorem searchStandards_ranking:
  "searchStandards m query
     = sort_key (\<lambda>r. - relevance r)
         (map (spec_result (spec_terms query))
            (filter (\<lambda>d. spec_relevance (spec_terms query) d \<noteq> 0) (documents m)))
   \<and> sorted_wrt (\<lambda>a b. relevance a \<ge> relevance b) (searchStandards m query)
   \<and> (\<forall>k. filter (\<lambda>r. relevance r = k) (searchStandards m query)
            = map (spec_result (spec_terms query))
                (filter (\<lambda>d. spec_relevance (spec_terms query) d = k \<and> k \<noteq> 0) (documents m)))"
proof -
  let ?ts = "spec_terms query"
  let ?rs = "map (spec_result ?ts) (filter (\<lambda>d. spec_relevance ?ts d \<noteq> 0) (documents m))"
  have eq: "searchStandards m query = sort_key (\<lambda>r. - relevance r) ?rs"
    by (rule searchStandards_terms)
  have srt: "sorted_wrt (\<lambda>a b. relevance a \<ge> relevance b) (searchStandards m query)"
    unfolding eq desc_sorted [symmetric] by simp
  have stable: "filter (\<lambda>r. relevance r = k) (searchStandards m query)
                  = map (spec_result ?ts)
                      (filter (\<lambda>d. spec_relevance ?ts d = k \<and> k \<noteq> 0) (documents m))" for k
  proof -
    have "filter (\<lambda>r. relevance r = k) (sort_key (\<lambda>r. - relevance r) ?rs)
            = filter (\<lambda>r. - relevance r = - k) (sort_key (\<lambda>r. - relevance r) ?rs)"
      by simp
    also have "\<dots> = filter (\<lambda>r. - relevance r = - k) ?rs"
      by (rule sort_key_stable)
    also have "\<dots> = map (spec_result ?ts)
                        (filter (\<lambda>d. spec_relevance ?ts d = k \<and> k \<noteq> 0) (documents m))"
      by (auto simp: filter_map o_def spec_result_def
               intro!: filter_cong arg_cong [where f = "map _"])
    finally show ?thesis unfolding eq .
  qed
  show ?thesis using eq srt stable by blast
qed

text \<open>
  C9. When the query matches at least one document, the results of \<open>resolveStandard\<close> are the
  first ten of \<open>searchStandards\<close> in its order, so at most ten, and \<open>totalCount\<close> is the number
  of all matches.
\<close>

theorem resolveStandard_top10:
  "searchStandards m query \<noteq> [] \<Longrightarrow>
     results (resolveStandard m query) = take 10 (searchStandards m query)
     \<and> length (results (resolveStandard m query)) \<le> 10
     \<and> totalCount (resolveStandard m query) = length (searchStandards m query)"
proof -
  assume found: "searchStandards m query \<noteq> []"
  then have "trim query \<noteq> []" using searchStandards_blank by blast
  then have "query \<noteq> []" by (auto simp: trim_def)
  have copy: "map (\<lambda>r. \<lparr>sr_id = sr_id r, sr_title = sr_title r, sr_description = sr_description r,
                         sr_category = sr_category r, relevance = relevance r\<rparr>) xs = xs"
    for xs :: "SearchResult list"
    by (induction xs) auto
  show ?thesis
    using found \<open>trim query \<noteq> []\<close> \<open>query \<noteq> []\<close>
    by (simp add: resolveStandard_def searchStandards_trim Let_def copy)
qed


theorem resolveStandard_top10_witness:
  "searchStandards guides_manager ''  Guide '' \<noteq> []
   \<and> map sr_id (results (resolveStandard guides_manager ''  Guide ''))
       = [''g01'', ''g02'', ''g03'', ''g04'', ''g05'', ''g06'', ''g07'', ''g08'', ''g09'', ''g10'']
   \<and> totalCount (resolveStandard guides_manager ''  Guide '') = 12"
proof -
  have ids: "map sr_id (searchStandards guides_manager ''  Guide '')
               = [''g01'', ''g02'', ''g03'', ''g04'', ''g05'', ''g06'', ''g07'', ''g08'', ''g09'',
                  ''g10'', ''g11'', ''g12'']"
    by code_simp
  then have ne: "searchStandards guides_manager ''  Guide '' \<noteq> []" by auto
  have len: "length (searchStandards guides_manager ''  Guide '') = 12"
    using arg_cong [OF ids, of length] by simp
  show ?thesis
    using resolveStandard_top10 [OF ne] ne len arg_cong [OF ids, of "take 10"]
    by (simp add: take_map)
qed

section \<open>Properties of the manager\<close>

lemma load_fold:
  "fold (load_step ld) srcs (acc, calls)
     = (acc @ concat (map (successful_docs ld) srcs), calls @ srcs)"
  by (induction srcs arbitrary: acc calls)
     (auto simp: load_step_def successful_docs_def split: sum.splits)

lemma loadDocuments_miss:
  assumes "fst (Cache_get t_get ''all-documents'' (cache m)) = None"
  shows "loadDocuments ld t_get t_set m
         = m\<lparr>cache := Cache_set t_set ''all-documents''
                         (concat (map (successful_docs ld) (sources m))) None
                         (snd (Cache_get t_get ''all-documents'' (cache m))),
              documents := concat (map (successful_docs ld) (sources m)),
              load_calls := load_calls m @ sources m\<rparr>"
  using assms
  by (cases "Cache_get t_get ''all-documents'' (cache m)")
     (simp add: loadDocuments_def load_fold Let_def)

lemma loadDocuments_hit:
  assumes "fst (Cache_get t_get ''all-documents'' (cache m)) = Some docs"
  shows "loadDocuments ld t_get t_set m
         = m\<lparr>cache := snd (Cache_get t_get ''all-documents'' (cache m)), documents := docs\<rparr>"
  using assms
  by (cases "Cache_get t_get ''all-documents'' (cache m)")
     (simp add: loadDocuments_def)

lemma make_sources_fold:
  "fold (\<lambda>sourceConfig srcs. srcs @ [make_source sourceConfig]) cfgs acc
     = acc @ map make_source cfgs"
  by (induction cfgs arbitrary: acc) auto

lemma fresh_cache_miss: "Cache_get t k (Cache_new ttl) = (None, Cache_new ttl)"
  by (simp add: Cache_get_def Cache_new_def)

lemma initialize_sets_flag: "initialized (initialize ld t_get t_set m)"
  by (simp add: initialize_def Let_def)

lemma initialize_fresh:
  "initialize ld t_get t_set (StandardsManager_new cfg)
     = \<lparr>config = cfg,
        cache = Cache_set t_set ''all-documents''
                  (concat (map (successful_docs ld) (map make_source (cfg_sources cfg)))) None
                  (Cache_new (cacheTimeout cfg * 1000)),
        documents = concat (map (successful_docs ld) (map make_source (cfg_sources cfg))),
        sources = map make_source (cfg_sources cfg),
        initialized = True,
        load_calls = map make_source (cfg_sources cfg)\<rparr>"
  by (simp add: initialize_def StandardsManager_new_def make_sources_fold Let_def
        loadDocuments_miss fresh_cache_miss)

lemma find_first:
  "\<forall>x \<in> set xs. \<not> P x \<Longrightarrow> P d \<Longrightarrow> find P (xs @ d # ys) = Some d"
  by (induction xs) auto

text \<open>
  C3. When the cache holds no live corpus, \<open>loadDocuments\<close> calls \<open>load()\<close> of every source in
  the order of the sources list, whatever the earlier ones did, and the new corpus is the
  concatenation, in that order, of the documents of the sources whose \<open>load()\<close> resolved: a
  source whose \<open>load()\<close> throws adds nothing, and the corpus is what the sources before it
  and after it give. On a new manager the sources list is the configured one.
\<close>

theorem loadDocuments_partial_failure:
  "fst (Cache_get t_get ''all-documents'' (cache m)) = None \<Longrightarrow>
     documents (loadDocuments ld t_get t_set m)
       = concat (map (\<lambda>s. projr (ld s)) (filter (\<lambda>s. \<not> isl (ld s)) (sources m)))
     \<and> load_calls (loadDocuments ld t_get t_set m) = load_calls m @ sources m
     \<and> (sources m = before @ failing # after \<and> isl (ld failing) \<longrightarrow>
          documents (loadDocuments ld t_get t_set m)
            = concat (map (\<lambda>s. projr (ld s)) (filter (\<lambda>s. \<not> isl (ld s)) before))
              @ concat (map (\<lambda>s. projr (ld s)) (filter (\<lambda>s. \<not> isl (ld s)) after)))
     \<and> documents (initialize ld t_get t_set (StandardsManager_new cfg))
         = concat (map (\<lambda>s. projr (ld s))
                     (filter (\<lambda>s. \<not> isl (ld s)) (map make_source (cfg_sources cfg))))"
proof -
  assume miss: "fst (Cache_get t_get ''all-documents'' (cache m)) = None"
  have f: "concat (map (successful_docs ld) srcs)
             = concat (map (\<lambda>s. projr (ld s)) (filter (\<lambda>s. \<not> isl (ld s)) srcs))" for srcs
    by (induction srcs) (auto simp: successful_docs_def split: sum.splits)
  have a: "documents (loadDocuments ld t_get t_set m)
             = concat (map (\<lambda>s. projr (ld s)) (filter (\<lambda>s. \<not> isl (ld s)) (sources m)))"
    by (simp add: loadDocuments_miss [OF miss] f)
  have b: "load_calls (loadDocuments ld t_get t_set m) = load_calls m @ sources m"
    by (simp add: loadDocuments_miss [OF miss])
  have c: "documents (loadDocuments ld t_get t_set m)
            = concat (map (\<lambda>s. projr (ld s)) (filter (\<lambda>s. \<not> isl (ld s)) before))
              @ concat (map (\<lambda>s. projr (ld s)) (filter (\<lambda>s. \<not> isl (ld s)) after))"
    if "sources m = before @ failing # after" "isl (ld failing)"
    using that by (simp add: a)
  have d: "documents (initialize ld t_get t_set (StandardsManager_new cfg))
         = concat (map (\<lambda>s. projr (ld s))
                     (filter (\<lambda>s. \<not> isl (ld s)) (map make_source (cfg_sources cfg))))"
    by (simp only: initialize_fresh f StandardsManager.simps)
  show ?thesis using a b c d by blast
qed

theorem loadDocuments_partial_failure_witness:
  "documents (initialize failing_remote_loader 0 5 (StandardsManager_new three_sources_config))
     = [sample_doc ''local-a'' ''Local A'' ''a'', sample_doc ''local-b'' ''Local B'' ''b'',
        sample_doc ''git-c'' ''Git C'' ''c'']
   \<and> load_calls (loadDocuments failing_remote_loader 0 5
                   ((StandardsManager_new three_sources_config)
                      \<lparr>sources := map make_source (cfg_sources three_sources_config)\<rparr>))
       = [LocalSource ''./standards'', RemoteSource ''https://example.com/api'' None None,
          GitSource ''team/standards'' ''main'' None None]
   \<and> documents (loadDocuments failing_remote_loader 0 5
                   ((StandardsManager_new three_sources_config)
                      \<lparr>sources := map make_source (cfg_sources three_sources_config)\<rparr>))
       = [sample_doc ''local-a'' ''Local A'' ''a'', sample_doc ''local-b'' ''Local B'' ''b'',
          sample_doc ''git-c'' ''Git C'' ''c'']"
proof -
  let ?m = "(StandardsManager_new three_sources_config)
              \<lparr>sources := map make_source (cfg_sources three_sources_config)\<rparr>"
  have miss: "fst (Cache_get 0 ''all-documents'' (cache ?m)) = None"
    by (simp add: StandardsManager_new_def fresh_cache_miss)
  show ?thesis
    using loadDocuments_partial_failure [OF miss, of failing_remote_loader 5
            "[LocalSource ''./standards'']" "RemoteSource ''https://example.com/api'' None None"
            "[GitSource ''team/standards'' ''main'' None None]" three_sources_config]
    by (simp add: StandardsManager_new_def three_sources_config_def failing_remote_loader_def)
qed

text \<open>
  C6. A second \<open>initialize()\<close> returns the manager as the first one left it, whatever the
  sources would deliver and whatever the clock says: corpus, sources list, cache,
  \<open>initialized\<close> flag and the record of \<open>load()\<close> calls are unchanged. On a new manager the
  two calls together invoke \<open>load()\<close> once for each configured source, in order.
\<close>

theorem initialize_idempotent:
  "initialize ld2 t_get2 t_set2 (initialize ld1 t_get1 t_set1 m) = initialize ld1 t_get1 t_set1 m
   \<and> load_calls (initialize ld2 t_get2 t_set2
                   (initialize ld1 t_get1 t_set1 (StandardsManager_new cfg)))
       = map make_source (cfg_sources cfg)"
proof -
  have "initialize ld2 t_get2 t_set2 (initialize ld1 t_get1 t_set1 m) = initialize ld1 t_get1 t_set1 m"
    for m
    using initialize_sets_flag [of ld1 t_get1 t_set1 m]
    by (simp add: initialize_def [of ld2])
  moreover have "load_calls (initialize ld1 t_get1 t_set1 (StandardsManager_new cfg))
                  = map make_source (cfg_sources cfg)"
    by (simp add: initialize_fresh)
  ultimately show ?thesis by (simp only: simp_thms)
qed

theorem initialize_idempotent_witness:
  "load_calls (initialize colliding_loader 7000000 7000001
                 (initialize failing_remote_loader 0 5 (StandardsManager_new three_sources_config)))
     = [LocalSource ''./standards'', RemoteSource ''https://example.com/api'' None None,
        GitSource ''team/standards'' ''main'' None None]
   \<and> documents (initialize colliding_loader 7000000 7000001
                  (initialize failing_remote_loader 0 5 (StandardsManager_new three_sources_config)))
       = [sample_doc ''local-a'' ''Local A'' ''a'', sample_doc ''local-b'' ''Local B'' ''b'',
          sample_doc ''git-c'' ''Git C'' ''c'']"
  using initialize_idempotent [of colliding_loader 7000000 7000001 failing_remote_loader 0 5
          "StandardsManager_new three_sources_config" three_sources_config]
  by (simp add: initialize_fresh three_sources_config_def failing_remote_loader_def
        successful_docs_def)

text \<open>
  C8, as the claim states it, fails: two sources each deliver one document with the id
  \<open>guide\<close>, and the lookup does not return the document of the second source.
\<close>

theorem getStandardById_collision_counterexample:
  "getStandardById (initialize colliding_loader 0 0 (StandardsManager_new two_sources_config))
     ''guide''
   \<noteq> Some (sample_doc ''guide'' ''From second'' ''two'')"
  by (simp add: getStandardById_def initialize_fresh two_sources_config_def colliding_loader_def
        successful_docs_def sample_doc_def)

text \<open>
  C8, amended. \<open>getStandardById\<close> returns the first document of the corpus with the id, and
  nothing when no document has it. After a load the first document is the one of the
  earliest source in the sources list that delivers the id, and within that source the
  earliest such document: on a collision the first one wins.
\<close>

theorem getStandardById_first_wins:
  "(documents m = earlier @ d # later \<and> doc_id d = i \<and> (\<forall>x \<in> set earlier. doc_id x \<noteq> i)
      \<longrightarrow> getStandardById m i = Some d)
   \<and> ((\<forall>x \<in> set (documents m). doc_id x \<noteq> i) \<longrightarrow> getStandardById m i = None)
   \<and> (fst (Cache_get t_get ''all-documents'' (cache m)) = None
       \<and> sources m = before @ src # after
       \<and> (\<forall>s \<in> set before. \<forall>x \<in> set (successful_docs ld s). doc_id x \<noteq> i)
       \<and> ld src = Inr (pre @ d # post) \<and> doc_id d = i \<and> (\<forall>x \<in> set pre. doc_id x \<noteq> i)
      \<longrightarrow> getStandardById (loadDocuments ld t_get t_set m) i = Some d)"
proof -
  have a: "documents m = earlier @ d # later \<and> doc_id d = i \<and> (\<forall>x \<in> set earlier. doc_id x \<noteq> i)
      \<longrightarrow> getStandardById m i = Some d"
    by (auto simp: getStandardById_def find_first)
  have b: "(\<forall>x \<in> set (documents m). doc_id x \<noteq> i) \<longrightarrow> getStandardById m i = None"
    by (auto simp: getStandardById_def find_None_iff)
  have c: "getStandardById (loadDocuments ld t_get t_set m) i = Some d"
    if miss: "fst (Cache_get t_get ''all-documents'' (cache m)) = None"
      and srcs: "sources m = before @ src # after"
      and bef: "\<forall>s \<in> set before. \<forall>x \<in> set (successful_docs ld s). doc_id x \<noteq> i"
      and ok: "ld src = Inr (pre @ d # post)" and d: "doc_id d = i"
      and pre: "\<forall>x \<in> set pre. doc_id x \<noteq> i"
  proof -
    have "documents (loadDocuments ld t_get t_set m)
            = (concat (map (successful_docs ld) before) @ pre) @ d
              # (post @ concat (map (successful_docs ld) after))"
      using srcs ok by (simp add: loadDocuments_miss [OF miss] successful_docs_def)
    moreover have "\<forall>x \<in> set (concat (map (successful_docs ld) before) @ pre). \<not> doc_id x = i"
      using bef pre by auto
    ultimately show ?thesis
      unfolding getStandardById_def using d by (simp only: find_first)
  qed
  show ?thesis using a b c by blast
qed

theorem getStandardById_first_wins_witness:
  "getStandardById
     ((StandardsManager_new two_sources_config)
        \<lparr>documents := [sample_doc ''other'' ''Other'' ''zero'',
                       sample_doc ''guide'' ''From first'' ''one'',
                       sample_doc ''guide'' ''From second'' ''two'']\<rparr>) ''guide''
     = Some (sample_doc ''guide'' ''From first'' ''one'')
   \<and> getStandardById
       ((StandardsManager_new two_sources_config)
          \<lparr>documents := [sample_doc ''other'' ''Other'' ''zero'',
                         sample_doc ''guide'' ''From first'' ''one'',
                         sample_doc ''guide'' ''From second'' ''two'']\<rparr>) ''missing''
       = None
   \<and> getStandardById
       (loadDocuments colliding_loader 0 0
          ((StandardsManager_new two_sources_config)
             \<lparr>sources := [GitSource ''none'' ''main'' None None, LocalSource ''first'',
                          LocalSource ''second'']\<rparr>)) ''guide''
       = Some (sample_doc ''guide'' ''From first'' ''one'')"
proof -
  let ?m = "(StandardsManager_new two_sources_config)
        \<lparr>documents := [sample_doc ''other'' ''Other'' ''zero'',
                       sample_doc ''guide'' ''From first'' ''one'',
                       sample_doc ''guide'' ''From second'' ''two'']\<rparr>"
  let ?n = "(StandardsManager_new two_sources_config)
             \<lparr>sources := [GitSource ''none'' ''main'' None None, LocalSource ''first'',
                          LocalSource ''second'']\<rparr>"
  have a: "getStandardById ?m ''guide'' = Some (sample_doc ''guide'' ''From first'' ''one'')"
    using getStandardById_first_wins [of ?m "[sample_doc ''other'' ''Other'' ''zero'']"
            "sample_doc ''guide'' ''From first'' ''one''"
            "[sample_doc ''guide'' ''From second'' ''two'']" "''guide''"]
    by (simp add: sample_doc_def)
  have b: "getStandardById ?m ''missing'' = None"
    using getStandardById_first_wins [of ?m _ _ _ "''missing''"]
    by (simp add: sample_doc_def)
  have c: "getStandardById (loadDocuments colliding_loader 0 0 ?n) ''guide''
             = Some (sample_doc ''guide'' ''From first'' ''one'')"
    using getStandardById_first_wins [of ?n _ "sample_doc ''guide'' ''From first'' ''one''" _
            "''guide''" 0 "[GitSource ''none'' ''main'' None None]" "LocalSource ''first''"
            "[LocalSource ''second'']" colliding_loader "[]" "[]" 0]
    by (simp add: StandardsManager_new_def fresh_cache_miss colliding_loader_def
          successful_docs_def sample_doc_def)
  show ?thesis using a b c by simp
qed

text \<open>
  C10. \<open>refresh()\<close> on a new manager calls no \<open>load()\<close> and stores the empty list under
  \<open>all-documents\<close> with the default expiry. An \<open>initialize()\<close> whose cache read comes no later
  than that expiry builds the sources list from the configuration, takes the cached empty
  list as the corpus, and calls no \<open>load()\<close>: the manager is initialized with an empty
  corpus.
\<close>

theorem refresh_before_initialize:
  "t_get2 \<le> t_set1 + cacheTimeout cfg * 1000 \<Longrightarrow>
     store (cache (refresh ld1 t_get1 t_set1 (StandardsManager_new cfg))) ''all-documents''
       = Some \<lparr>data = [], timestamp = t_set1, expiresAt = t_set1 + cacheTimeout cfg * 1000\<rparr>
     \<and> load_calls (refresh ld1 t_get1 t_set1 (StandardsManager_new cfg)) = []
     \<and> documents (initialize ld2 t_get2 t_set2 (refresh ld1 t_get1 t_set1 (StandardsManager_new cfg)))
         = []
     \<and> load_calls (initialize ld2 t_get2 t_set2 (refresh ld1 t_get1 t_set1 (StandardsManager_new cfg)))
         = []
     \<and> sources (initialize ld2 t_get2 t_set2 (refresh ld1 t_get1 t_set1 (StandardsManager_new cfg)))
         = map make_source (cfg_sources cfg)
     \<and> initialized (initialize ld2 t_get2 t_set2
                      (refresh ld1 t_get1 t_set1 (StandardsManager_new cfg)))"
proof -
  assume live: "t_get2 \<le> t_set1 + cacheTimeout cfg * 1000"
  let ?c = "Cache_set t_set1 ''all-documents'' ([] :: StandardDocument list) None
              (Cache_new (cacheTimeout cfg * 1000))"
  have r: "refresh ld1 t_get1 t_set1 (StandardsManager_new cfg)
           = \<lparr>config = cfg, cache = ?c, documents = [], sources = [], initialized = False,
              load_calls = []\<rparr>"
    by (simp add: refresh_def StandardsManager_new_def Cache_clear_def loadDocuments_def
          Cache_get_def Cache_new_def Let_def)
  let ?m1 = "\<lparr>config = cfg, cache = ?c, documents = [],
              sources = map make_source (cfg_sources cfg), initialized = False,
              load_calls = []\<rparr>"
  have hit: "Cache_get t_get2 ''all-documents'' ?c = (Some [], ?c)"
    using live by (simp add: Cache_get_def Cache_set_def Cache_new_def)
  have l: "loadDocuments ld2 t_get2 t_set2 ?m1 = ?m1"
    using loadDocuments_hit [of t_get2 ?m1 "[]" ld2 t_set2] hit by simp
  have i: "initialize ld2 t_get2 t_set2
             \<lparr>config = cfg, cache = ?c, documents = [], sources = [], initialized = False,
              load_calls = []\<rparr>
           = ?m1\<lparr>initialized := True\<rparr>"
    unfolding initialize_def Let_def using l by (simp add: make_sources_fold)
  show ?thesis
    unfolding r i by (simp add: Cache_set_def Cache_new_def)
qed

theorem refresh_before_initialize_witness:
  "documents (initialize failing_remote_loader 60000 60001
                (refresh failing_remote_loader 0 5 (StandardsManager_new three_sources_config)))
     = []
   \<and> load_calls (initialize failing_remote_loader 60000 60001
                   (refresh failing_remote_loader 0 5 (StandardsManager_new three_sources_config)))
       = []
   \<and> sources (initialize failing_remote_loader 60000 60001
                (refresh failing_remote_loader 0 5 (StandardsManager_new three_sources_config)))
       = [LocalSource ''./standards'', RemoteSource ''https://example.com/api'' None None,
          GitSource ''team/standards'' ''main'' None None]"
proof -
  have live: "(60000::int) \<le> 5 + cacheTimeout three_sources_config * 1000"
    by (simp add: three_sources_config_def)
  show ?thesis
    using refresh_before_initialize [OF live, of failing_remote_loader 0 failing_remote_loader 60001]
    by (simp add: three_sources_config_def)
qed


section \<open>Properties of the parser\<close>

text \<open>
  C4, as the claim states it, fails: on a text whose front matter is malformed YAML the
  front-matter parser throws, \<open>parseMarkdown\<close> has no handler, and the call raises.
\<close>

theorem parseMarkdown_raises_counterexample:
  "parseMarkdown sample_matter text_malformed ''frontend/vue/components.md'' SrcLocal
     = Inl (Thrown ''YAMLException'')"
  by (simp add: parseMarkdown_def sample_matter_def)

text \<open>
  C4, amended. \<open>parseMarkdown\<close> raises exactly when the front-matter parser raises on the raw
  text, and then with the same exception. On every text the parser accepts it returns a
  document whose content is the body the parser split off, trimmed, and which carries the
  parser's front matter, the given path and the given origin.
\<close>

theorem parseMarkdown_outcome:
  "(matter raw = Inl e \<longrightarrow> parseMarkdown matter raw filePath src = Inl e)
   \<and> (matter raw = Inr (fm, body) \<longrightarrow>
        (\<exists>doc. parseMarkdown matter raw filePath src = Inr doc
               \<and> content doc = trim body \<and> frontmatter doc = fm
               \<and> path doc = filePath \<and> source doc = src))
   \<and> isl (parseMarkdown matter raw filePath src) = isl (matter raw)"
  by (cases "matter raw") (auto simp: parseMarkdown_def Let_def)

theorem parseMarkdown_outcome_witness:
  "(\<exists>doc. parseMarkdown sample_matter text_with_id ''frontend/vue/components.md'' SrcLocal = Inr doc
          \<and> content doc = ''Body text'')
   \<and> parseMarkdown sample_matter text_malformed ''frontend/vue/components.md'' SrcLocal
       = Inl (Thrown ''YAMLException'')"
proof -
  have ne: "text_with_id \<noteq> text_malformed"
    by (simp add: text_with_id_def text_malformed_def)
  have a: "sample_matter text_with_id
             = Inr (empty_frontmatter\<lparr>fm_id := Some ''custom-id''\<rparr>, ''Body text'' @ [CHR 0x0A])"
    using ne by (simp add: sample_matter_def)
  have b: "sample_matter text_malformed = Inl (Thrown ''YAMLException'')"
    by (simp add: sample_matter_def)
  have t: "trim (''Body text'' @ [CHR 0x0A]) = ''Body text''"
    by (simp add: trim_def is_ws_def)
  show ?thesis
    using parseMarkdown_outcome [of sample_matter text_with_id "Thrown ''YAMLException''"
            "''frontend/vue/components.md''" SrcLocal
            "empty_frontmatter\<lparr>fm_id := Some ''custom-id''\<rparr>" "''Body text'' @ [CHR 0x0A]"]
          parseMarkdown_outcome [of sample_matter text_malformed "Thrown ''YAMLException''"
            "''frontend/vue/components.md''" SrcLocal empty_frontmatter "[]"]
          a b t
    by auto
qed

lemma no_backslash_id: "CHR 0x5C \<notin> set p \<Longrightarrow> backslashes_to_slashes p = p"
  by (induction p) (auto simp: backslashes_to_slashes_def)

lemma toLowerChar_slash: "toLowerChar (CHR ''/'') = CHR ''/''"
  by (simp add: toLowerChar_def)

lemma lower_normalized_suffix:
  assumes "suffix s (toLowerCase (backslashes_to_slashes p))" and "CHR ''/'' \<notin> set s"
  shows "suffix s (toLowerCase p)"
proof -
  obtain r where r: "toLowerCase (backslashes_to_slashes p) = r @ s"
    using assms(1) by (auto simp: suffix_def)
  then obtain p1 p2 where p: "p = p1 @ p2"
    and p2: "map (\<lambda>c. toLowerChar (if c = CHR 0x5C then CHR ''/'' else c)) p2 = s"
    by (auto simp: toLowerCase_def backslashes_to_slashes_def map_eq_append_conv o_def)
  have "\<forall>c \<in> set p2. c \<noteq> CHR 0x5C"
  proof
    fix c assume c: "c \<in> set p2"
    show "c \<noteq> CHR 0x5C"
    proof
      assume "c = CHR 0x5C"
      then have "CHR ''/'' \<in> set s"
        using c p2 [symmetric] by (force simp: toLowerChar_slash)
      then show False using assms(2) by simp
    qed
  qed
  then have "map toLowerChar p2 = s" using p2 [symmetric] by (auto intro: map_cong)
  then show ?thesis using p by (simp add: toLowerCase_def suffix_def)
qed

lemma generateId_markdown_extension:
  "generateId ''docs/guide.markdown'' = ''docs-guide.markdown''"
  by code_simp

text \<open>
  C5, as the claim states it, fails: for the path \<open>/guide.md\<close> the steps of the claim give
  \<open>-guide\<close>, and \<open>generateId\<close> gives \<open>guide\<close>.
\<close>

theorem generateId_counterexample:
  "generateId ''/guide.md'' = ''guide'' \<and> spec_generateId ''/guide.md'' = ''-guide''"
  by code_simp

text \<open>
  C5, amended. On every path that does not end in \<open>.markdown\<close>, \<open>generateId\<close> turns the
  backslashes into slashes, strips one leading \<open>./\<close> or one leading \<open>/\<close>, strips a leading
  \<open>standards/\<close>, strips the extension, replaces the slashes by hyphens and lowercases. When
  the path has no backslash and no leading \<open>/\<close> these are the steps of the specification
  itself. A document whose front matter has no \<open>id\<close> gets this id, and
  \<open>frontend/vue/components.md\<close> gives \<open>frontend-vue-components\<close>.
\<close>

theorem generateId_derivation:
  "(\<not> endsWith (toLowerCase p) ''.markdown'' \<longrightarrow>
      generateId p
        = toLowerCase (slashes_to_hyphens (spec_strip_extension (strip_standards_prefix
            (strip_leading_dot_slash (backslashes_to_slashes p))))))
   \<and> (\<not> endsWith (toLowerCase p) ''.markdown'' \<and> CHR 0x5C \<notin> set p \<and> \<not> startsWith p ''/''
        \<longrightarrow> generateId p = spec_generateId p)
   \<and> (matter raw = Inr (fm, body) \<and> fm_id fm = None
        \<longrightarrow> map_sum id doc_id (parseMarkdown matter raw p src) = Inr (generateId p))
   \<and> generateId ''frontend/vue/components.md'' = ''frontend-vue-components''"
proof -
  have a: "generateId p
        = toLowerCase (slashes_to_hyphens (spec_strip_extension (strip_standards_prefix
            (strip_leading_dot_slash (backslashes_to_slashes p)))))"
    if nm: "\<not> endsWith (toLowerCase p) ''.markdown''"
  proof -
    let ?n = "backslashes_to_slashes p"
    let ?q = "strip_standards_prefix (strip_leading_dot_slash ?n)"
    have "suffix (strip_leading_dot_slash r) r" for r
      by (simp add: strip_leading_dot_slash_def suffix_drop)
    moreover have "suffix (strip_standards_prefix r) r" for r
      by (simp add: strip_standards_prefix_def suffix_drop)
    ultimately have "suffix ?q ?n" by (meson suffix_order.trans)
    then have "suffix (toLowerCase ?q) (toLowerCase ?n)"
      unfolding toLowerCase_def by (rule map_mono_suffix)
    moreover have "\<not> suffix ''.markdown'' (toLowerCase ?n)"
      using nm lower_normalized_suffix [of "''.markdown''" p] by (auto simp: endsWith_def)
    ultimately have "\<not> endsWith (toLowerCase ?q) ''.markdown''"
      unfolding endsWith_def by (meson suffix_order.trans)
    then have "spec_strip_extension ?q = strip_md_suffix ?q"
      by (simp add: spec_strip_extension_def strip_md_suffix_def)
    then show ?thesis by (simp add: generateId_def Let_def)
  qed
  have b: "generateId p = spec_generateId p"
    if nm: "\<not> endsWith (toLowerCase p) ''.markdown''"
      and nb: "CHR 0x5C \<notin> set p" and ns: "\<not> startsWith p ''/''"
    using a [OF nm] ns
    by (simp add: spec_generateId_def no_backslash_id [OF nb] strip_leading_dot_slash_def)
  have d: "map_sum id doc_id (parseMarkdown matter raw p src) = Inr (generateId p)"
    if "matter raw = Inr (fm, body)" "fm_id fm = None"
    using that by (simp add: parseMarkdown_def Let_def or_str_def)
  have e: "generateId ''frontend/vue/components.md'' = ''frontend-vue-components''"
    by code_simp
  show ?thesis using a b d e by blast
qed

theorem generateId_derivation_witness:
  "generateId ''./standards/Frontend/Vue/Components.MD'' = ''frontend-vue-components''
   \<and> spec_generateId ''./standards/Frontend/Vue/Components.MD'' = ''frontend-vue-components''
   \<and> generateId ''/backend/api.md'' = ''backend-api''
   \<and> map_sum id doc_id
        (parseMarkdown sample_matter ''Plain text'' ''frontend/vue/components.md'' SrcLocal)
       = Inr ''frontend-vue-components''"
proof -
  have h1: "\<not> endsWith (toLowerCase ''./standards/Frontend/Vue/Components.MD'') ''.markdown''
            \<and> CHR 0x5C \<notin> set ''./standards/Frontend/Vue/Components.MD''
            \<and> \<not> startsWith ''./standards/Frontend/Vue/Components.MD'' ''/''"
    by code_simp
  have v1: "spec_generateId ''./standards/Frontend/Vue/Components.MD'' = ''frontend-vue-components''"
    by code_simp
  have h2: "\<not> endsWith (toLowerCase ''/backend/api.md'') ''.markdown''"
    by code_simp
  have v2: "toLowerCase (slashes_to_hyphens (spec_strip_extension (strip_standards_prefix
              (strip_leading_dot_slash (backslashes_to_slashes ''/backend/api.md'')))))
            = ''backend-api''"
    by code_simp
  have h3: "sample_matter ''Plain text'' = Inr (empty_frontmatter, ''Plain text'')
            \<and> fm_id empty_frontmatter = None"
    by (simp add: sample_matter_def text_malformed_def text_with_id_def empty_frontmatter_def)
  have 1: "generateId ''./standards/Frontend/Vue/Components.MD''
             = spec_generateId ''./standards/Frontend/Vue/Components.MD''"
    using generateId_derivation [of "''./standards/Frontend/Vue/Components.MD''"] h1 by blast
  have 2: "generateId ''/backend/api.md''
             = toLowerCase (slashes_to_hyphens (spec_strip_extension (strip_standards_prefix
                 (strip_leading_dot_slash (backslashes_to_slashes ''/backend/api.md'')))))"
    using generateId_derivation [of "''/backend/api.md''"] h2 by blast
  have 3: "map_sum id doc_id
             (parseMarkdown sample_matter ''Plain text'' ''frontend/vue/components.md'' SrcLocal)
           = Inr (generateId ''frontend/vue/components.md'')"
    using generateId_derivation [of "''frontend/vue/components.md''" sample_matter
            "''Plain text''" empty_frontmatter "''Plain text''" SrcLocal] h3 by blast
  have 4: "generateId ''frontend/vue/components.md'' = ''frontend-vue-components''"
    using generateId_derivation [of "''frontend/vue/components.md''"] by blast
  show ?thesis using 1 2 3 4 v1 v2 by simp
qed

section \<open>Properties of the remote source\<close>

lemma loadMarkdownFile_requests:
  "snd (loadMarkdownFile pf self cfg) = [markdown_request self (rd_url cfg)]"
  by (simp add: loadMarkdownFile_def Let_def)

lemma loadMarkdownFile_result:
  assumes "fst (loadMarkdownFile pf self cfg) = Some doc"
  shows "\<exists>response body fm b.
           pf_fetch pf (rd_url cfg) (snd (markdown_request self (rd_url cfg))) = Inr response
           \<and> resp_ok response \<and> resp_text response = Inr body
           \<and> pf_matter pf body = Inr (fm, b)
           \<and> content doc = trim b \<and> path doc = rd_url cfg \<and> source doc = SrcRemote"
proof -
  let ?u = "rd_url cfg"
  obtain response where f: "pf_fetch pf ?u (snd (markdown_request self ?u)) = Inr response"
    using assms
    by (cases "pf_fetch pf ?u (snd (markdown_request self ?u))")
       (auto simp: loadMarkdownFile_def Let_def markdown_request_def)
  have ok: "resp_ok response"
    using assms f by (auto simp: loadMarkdownFile_def Let_def markdown_request_def split: if_splits)
  obtain body where t: "resp_text response = Inr body"
    using assms f ok
    by (cases "resp_text response") (auto simp: loadMarkdownFile_def Let_def markdown_request_def)
  have v: "isValidMarkdown body"
    using assms f ok t
    by (auto simp: loadMarkdownFile_def Let_def markdown_request_def split: if_splits)
  obtain urlPath where p: "pf_url_pathname pf ?u = Inr urlPath"
    using assms f ok t v
    by (cases "pf_url_pathname pf ?u") (auto simp: loadMarkdownFile_def Let_def markdown_request_def)
  obtain rel d where d: "parseMarkdown (pf_matter pf) body rel SrcRemote = Inr d"
    and doc: "doc = d\<lparr>path := ?u\<rparr>"
    using assms f ok t v p
    by (auto simp: loadMarkdownFile_def Let_def markdown_request_def split: sum.splits if_splits)
  obtain fm b where m: "pf_matter pf body = Inr (fm, b)"
    using d by (cases "pf_matter pf body") (auto simp: parseMarkdown_def)
  have "content d = trim b \<and> source d = SrcRemote"
    using d m by (auto simp: parseMarkdown_def Let_def)
  then show ?thesis using f ok t m doc by auto
qed

lemma load_listed_fold:
  "fold (load_listed pf self) ds (acc, reqs)
     = (acc @ List.map_filter (\<lambda>d. fst (loadMarkdownFile pf self d)) ds,
        reqs @ map (\<lambda>d. markdown_request self (rd_url d)) ds)"
proof (induction ds arbitrary: acc reqs)
  case Nil
  then show ?case by (simp add: List.map_filter_simps)
next
  case (Cons d ds)
  obtain r q where l: "loadMarkdownFile pf self d = (r, q)" by (cases "loadMarkdownFile pf self d")
  then have q: "q = [markdown_request self (rd_url d)]"
    using loadMarkdownFile_requests [of pf self d] by simp
  have "fold (load_listed pf self) (d # ds) (acc, reqs)
          = fold (load_listed pf self) ds (load_listed pf self d (acc, reqs))"
    by simp
  also have "load_listed pf self d (acc, reqs)
               = (acc @ (case r of Some x \<Rightarrow> [x] | None \<Rightarrow> []), reqs @ q)"
    using l by (simp add: load_listed_def split: option.splits)
  also have "fold (load_listed pf self) ds \<dots>
               = ((acc @ (case r of Some x \<Rightarrow> [x] | None \<Rightarrow> []))
                    @ List.map_filter (\<lambda>d. fst (loadMarkdownFile pf self d)) ds,
                  (reqs @ q) @ map (\<lambda>d. markdown_request self (rd_url d)) ds)"
    by (rule Cons.IH)
  finally show ?case using l q by (simp add: List.map_filter_simps split: option.splits)
qed

lemma transform_loop:
  "\<forall>s \<in> set stds. parses_cleanly pf s \<Longrightarrow>
     transformStandards_loop pf self stds acc
       = Inr (acc @ map (record_document pf self) (filter usable_record stds))"
proof (induction stds arbitrary: acc)
  case Nil
  then show ?case by simp
next
  case (Cons s stds)
  have valid: "(std_content s = [] \<or> \<not> isValidMarkdown (std_content s)) = (\<not> usable_record s)"
    by (auto simp: isValidMarkdown_def usable_record_def trim_def)
  show ?case
  proof (cases "usable_record s")
    case False
    then show ?thesis using Cons valid by simp
  next
    case True
    show ?thesis
    proof (cases "startsWith (std_content s) ''---''")
      case False
      then show ?thesis using Cons True valid by (simp add: record_document_def)
    next
      case dashes: True
      then have "\<not> isl (parse_record pf s)"
        using Cons.prems True by (simp add: parses_cleanly_def)
      then obtain doc where "parse_record pf s = Inr doc" by (cases "parse_record pf s") auto
      then show ?thesis
        using Cons True valid dashes by (simp add: record_document_def parse_record_def)
    qed
  qed
qed

lemma trim_blank: "trim ''   '' = []"
  by (simp add: trim_def is_ws_def)

lemma guide_loaded: "fst (loadMarkdownFile sample_platform self guide_config) = Some guide_doc"
  by code_simp

lemma missing_not_loaded: "fst (loadMarkdownFile sample_platform self missing_config) = None"
  by code_simp

text \<open>
  C7, as the claim states it, fails: in the API mode a record whose content is blank has
  no front-matter delimiter and still is not used as a document; the load of an API that
  returns only this record is empty.
\<close>

theorem RemoteSource_blank_record_counterexample:
  "fst (RemoteSource_load sample_platform (RemoteSource_new ''https://example.com/blank'' None None))
     = []
   \<and> fst (RemoteSource_load sample_platform (RemoteSource_new ''https://example.com/blank'' None None))
       \<noteq> [direct_document (RemoteSource_new ''https://example.com/blank'' None None) blank_record]"
proof -
  have u: "\<not> isMarkdownUrl ''https://example.com/blank''"
    by code_simp
  have "fst (RemoteSource_load sample_platform
               (RemoteSource_new ''https://example.com/blank'' None None)) = []"
    using u
    by (simp add: RemoteSource_load_def RemoteSource_new_def loadFromApi_def api_request_def
          sample_platform_def sample_fetch_def transformStandards_def blank_record_def
          isValidMarkdown_def trim_blank)
  then show ?thesis by simp
qed

text \<open>
  C7, amended. \<open>load\<close> takes exactly one of three modes. With a non-empty \<open>docs\<close> list it
  requests every listed url, in order, as a Markdown file and returns the documents of the
  files that loaded. Otherwise, with a url that ends in \<open>.md\<close> or \<open>.markdown\<close> in any letter
  case, it requests that url alone as one Markdown file. Otherwise it makes one JSON request
  to the url and transforms the \<open>standards\<close> array, or the \<open>data\<close> array when \<open>standards\<close> is
  absent: records whose content is empty or blank are skipped, each remaining record whose
  content starts with \<open>---\<close> is normalized by \<open>parseMarkdown\<close>, and each remaining record
  without it is used directly as a document, provided no record makes the parser throw. A
  document loaded from a Markdown url is the normalization of the text fetched from it and
  has the url as its path.
\<close>

theorem RemoteSource_load_modes:
  "(rs_docs self \<noteq> [] \<longrightarrow>
      RemoteSource_load pf self
        = (List.map_filter (\<lambda>d. fst (loadMarkdownFile pf self d)) (rs_docs self),
           map (\<lambda>d. markdown_request self (rd_url d)) (rs_docs self)))
   \<and> (rs_docs self = [] \<and> isMarkdownUrl (rs_url self) \<longrightarrow>
      RemoteSource_load pf self
        = (List.map_filter (\<lambda>d. fst (loadMarkdownFile pf self d))
             [\<lparr>rd_url = rs_url self, rd_category = None, rd_subcategory = None\<rparr>],
           [markdown_request self (rs_url self)]))
   \<and> (rs_docs self = [] \<and> \<not> isMarkdownUrl (rs_url self) \<longrightarrow>
      snd (RemoteSource_load pf self) = [api_request self]
      \<and> (pf_fetch pf (rs_url self) (snd (api_request self)) = Inr response
          \<and> resp_ok response \<and> resp_json response = Inr dat
          \<and> (\<forall>s \<in> set (api_records dat). parses_cleanly pf s)
         \<longrightarrow> fst (RemoteSource_load pf self)
               = map (record_document pf self) (filter usable_record (api_records dat))))
   \<and> (fst (loadMarkdownFile pf self cfg) = Some doc \<longrightarrow>
        (\<exists>resp body fm b.
            pf_fetch pf (rd_url cfg) (snd (markdown_request self (rd_url cfg))) = Inr resp
            \<and> resp_ok resp \<and> resp_text resp = Inr body \<and> pf_matter pf body = Inr (fm, b)
            \<and> content doc = trim b \<and> path doc = rd_url cfg \<and> source doc = SrcRemote))"
proof -
  have a: "RemoteSource_load pf self
        = (List.map_filter (\<lambda>d. fst (loadMarkdownFile pf self d)) (rs_docs self),
           map (\<lambda>d. markdown_request self (rd_url d)) (rs_docs self))"
    if "rs_docs self \<noteq> []"
    using that load_listed_fold [of pf self "rs_docs self" "[]" "[]"]
    by (simp add: RemoteSource_load_def)
  have b: "RemoteSource_load pf self
        = (List.map_filter (\<lambda>d. fst (loadMarkdownFile pf self d))
             [\<lparr>rd_url = rs_url self, rd_category = None, rd_subcategory = None\<rparr>],
           [markdown_request self (rs_url self)])"
    if "rs_docs self = []" "isMarkdownUrl (rs_url self)"
  proof -
    let ?cfg = "\<lparr>rd_url = rs_url self, rd_category = None, rd_subcategory = None\<rparr>"
    obtain r q where l: "loadMarkdownFile pf self ?cfg = (r, q)"
      by (cases "loadMarkdownFile pf self ?cfg")
    then have "q = [markdown_request self (rs_url self)]"
      using loadMarkdownFile_requests [of pf self ?cfg] by simp
    then show ?thesis
      using that l by (simp add: RemoteSource_load_def List.map_filter_simps split: option.splits)
  qed
  have c1: "snd (RemoteSource_load pf self) = [api_request self]"
    if "rs_docs self = []" "\<not> isMarkdownUrl (rs_url self)"
    using that by (simp add: RemoteSource_load_def loadFromApi_def Let_def)
  have c2: "fst (RemoteSource_load pf self)
               = map (record_document pf self) (filter usable_record (api_records dat))"
    if "rs_docs self = []" "\<not> isMarkdownUrl (rs_url self)"
      and "pf_fetch pf (rs_url self) (snd (api_request self)) = Inr response"
      and "resp_ok response" "resp_json response = Inr dat"
      and clean: "\<forall>s \<in> set (api_records dat). parses_cleanly pf s"
  proof -
    have "transformStandards pf self (api_records dat)
            = Inr (map (record_document pf self) (filter usable_record (api_records dat)))"
      unfolding transformStandards_def using transform_loop [OF clean, of self "[]"] by simp
    then show ?thesis
      using that
      by (simp add: RemoteSource_load_def loadFromApi_def Let_def api_records_def api_request_def)
  qed
  have d: "\<exists>resp body fm b.
            pf_fetch pf (rd_url cfg) (snd (markdown_request self (rd_url cfg))) = Inr resp
            \<and> resp_ok resp \<and> resp_text resp = Inr body \<and> pf_matter pf body = Inr (fm, b)
            \<and> content doc = trim b \<and> path doc = rd_url cfg \<and> source doc = SrcRemote"
    if "fst (loadMarkdownFile pf self cfg) = Some doc"
    using that by (rule loadMarkdownFile_result)
  show ?thesis using a b c1 c2 d by blast
qed

theorem RemoteSource_load_modes_witness:
  "RemoteSource_load sample_platform
     (RemoteSource_new ''https://example.com/api'' None (Some [missing_config, guide_config]))
     = ([guide_doc],
        [(''https://example.com/missing.md'', [''Accept'' \<mapsto> ''text/plain, text/markdown, */*'']),
         (''https://example.com/guide.md'', [''Accept'' \<mapsto> ''text/plain, text/markdown, */*''])])
   \<and> RemoteSource_load sample_platform (RemoteSource_new ''https://example.com/guide.md'' None None)
       = ([guide_doc],
          [(''https://example.com/guide.md'', [''Accept'' \<mapsto> ''text/plain, text/markdown, */*''])])
   \<and> map doc_id (fst (RemoteSource_load sample_platform
                         (RemoteSource_new ''https://example.com/api'' None None)))
       = [''api-naming'', ''custom-id'']
   \<and> snd (RemoteSource_load sample_platform (RemoteSource_new ''https://example.com/api'' None None))
       = [(''https://example.com/api'', [''Content-Type'' \<mapsto> ''application/json''])]"
proof -
  let ?listed = "RemoteSource_new ''https://example.com/api'' None (Some [missing_config, guide_config])"
  let ?single = "RemoteSource_new ''https://example.com/guide.md'' None None"
  let ?api = "RemoteSource_new ''https://example.com/api'' None None"
  let ?resp = "\<lparr>resp_ok = True, resp_text = Inl (Thrown ''not text''),
                 resp_json = Inr \<lparr>resp_standards = Some [blank_record, plain_record, fronted_record],
                                   resp_data = None\<rparr>\<rparr>"
  let ?dat = "\<lparr>resp_standards = Some [blank_record, plain_record, fronted_record],
                resp_data = None\<rparr>"
  have md: "isMarkdownUrl ''https://example.com/guide.md''" by code_simp
  have nmd: "\<not> isMarkdownUrl ''https://example.com/api''" by code_simp
  have cfg: "\<lparr>rd_url = ''https://example.com/guide.md'', rd_category = None, rd_subcategory = None\<rparr>
             = guide_config"
    by (simp add: guide_config_def)
  have 1: "RemoteSource_load sample_platform ?listed
             = ([guide_doc],
                [markdown_request ?listed ''https://example.com/missing.md'',
                 markdown_request ?listed ''https://example.com/guide.md''])"
    using RemoteSource_load_modes [of ?listed sample_platform]
    by (simp add: RemoteSource_new_def List.map_filter_simps guide_loaded missing_not_loaded)
       (simp add: guide_config_def missing_config_def)
  have 2: "RemoteSource_load sample_platform ?single
             = ([guide_doc], [markdown_request ?single ''https://example.com/guide.md''])"
    using RemoteSource_load_modes [of ?single sample_platform] md
    by (simp add: RemoteSource_new_def List.map_filter_simps cfg guide_loaded)
  have clean: "\<forall>s \<in> set (api_records ?dat). parses_cleanly sample_platform s"
    by code_simp
  have docs: "map doc_id (map (record_document sample_platform ?api)
                            (filter usable_record (api_records ?dat)))
                = [''api-naming'', ''custom-id'']"
    by code_simp
  have 3: "snd (RemoteSource_load sample_platform ?api) = [api_request ?api]
           \<and> fst (RemoteSource_load sample_platform ?api)
               = map (record_document sample_platform ?api) (filter usable_record (api_records ?dat))"
    using RemoteSource_load_modes [of ?api sample_platform ?resp ?dat] nmd clean
    by (simp add: RemoteSource_new_def sample_platform_def sample_fetch_def api_request_def)
  show ?thesis
    using 1 2 3 docs
    by (simp add: markdown_request_def api_request_def RemoteSource_new_def)
qed


end
